theory Spec2Isabelle
  imports Complex_Main "HOL-Library.Sublist" "HOL-Library.List_Lexorder"
begin

section \<open>Data model\<close>

text \<open>
  Python strings are sequences of Unicode code points, and \<open>len\<close> counts code points, so a
  text is a list of code points. \<open>lit\<close> reads an ASCII literal as such a text.
  A missing cell (pandas' NaN) is \<open>None\<close>.
\<close>

type_synonym ustr = "nat list"

definition lit :: "string \<Rightarrow> ustr" where
  "lit s = map of_char s"

text \<open>
  One row of the survey table, with the sixteen columns the dashboard reads and writes.
  The numeric columns hold integers.
\<close>

record row =
  ID :: "int option"
  Age :: "int option"
  Sexe :: "ustr option"
  Diplome :: "ustr option"
  Q1_Domaine :: "ustr option"
  Q2_Stage :: "ustr option"
  Q3_Difficulte :: "ustr option"
  Q4_Informatique :: "ustr option"
  Q5_Langues :: "ustr option"
  Q6_Salaire_ZAR :: "int option"
  Q7_Mobilite :: "ustr option"
  Q8_Formation :: "int option"
  Q9_Entreprenariat :: "ustr option"
  Q10_LinkedIn :: "ustr option"
  Q11_Candidatures :: "int option"
  Q12_Mentorat :: "ustr option"

text \<open>The sidebar's filter state: the age slider's pair and the six multiselect lists.\<close>

record filter_state =
  f_age :: "int \<times> int"
  f_sexe :: "ustr list"
  f_diplome :: "ustr list"
  f_domaine :: "ustr list"
  f_stage :: "ustr list"
  f_mobilite :: "ustr list"
  f_linkedin :: "ustr list"

section \<open>Filter engine (lines 162 to 169)\<close>

text \<open>\<open>df[c]\<close>: the column as a series, one cell per row.\<close>

definition col :: "('r \<Rightarrow> 'a) \<Rightarrow> 'r list \<Rightarrow> 'a list" where
  "col c df = map c df"

text \<open>\<open>Series.between(left, right)\<close>: inclusive on both ends, false on a missing cell.\<close>

definition between :: "int option list \<Rightarrow> int \<Rightarrow> int \<Rightarrow> bool list" where
  "between s left right =
     map (\<lambda>v. case v of None \<Rightarrow> False | Some x \<Rightarrow> left \<le> x \<and> x \<le> right) s"

text \<open>\<open>Series.isin(values)\<close>: false on a missing cell (the lists hold texts only).\<close>

definition isin :: "'a option list \<Rightarrow> 'a list \<Rightarrow> bool list" where
  "isin s vals = map (\<lambda>v. case v of None \<Rightarrow> False | Some x \<Rightarrow> x \<in> set vals) s"

text \<open>\<open>mask &= other\<close>: the element-wise conjunction of two boolean series.\<close>

definition series_and :: "bool list \<Rightarrow> bool list \<Rightarrow> bool list" where
  "series_and m other = map2 (\<and>) m other"

text \<open>\<open>df[mask]\<close>: the rows at which the mask is true, in the order of the table.\<close>

definition select_rows :: "'r list \<Rightarrow> bool list \<Rightarrow> 'r list" where
  "select_rows df m = map fst (filter snd (zip df m))"

text \<open>The six categorical columns that have a multiselect, in the order of lines 163 to 168.\<close>

datatype filter_column = F_Sexe | F_Diplome | F_Domaine | F_Stage | F_Mobilite | F_LinkedIn

fun column_of :: "filter_column \<Rightarrow> row \<Rightarrow> ustr option" where
  "column_of F_Sexe = Sexe"
| "column_of F_Diplome = Diplome"
| "column_of F_Domaine = Q1_Domaine"
| "column_of F_Stage = Q2_Stage"
| "column_of F_Mobilite = Q7_Mobilite"
| "column_of F_LinkedIn = Q10_LinkedIn"

fun selected :: "filter_state \<Rightarrow> filter_column \<Rightarrow> ustr list" where
  "selected fs F_Sexe = f_sexe fs"
| "selected fs F_Diplome = f_diplome fs"
| "selected fs F_Domaine = f_domaine fs"
| "selected fs F_Stage = f_stage fs"
| "selected fs F_Mobilite = f_mobilite fs"
| "selected fs F_LinkedIn = f_linkedin fs"

text \<open>
  One statement \<open>if f_x: mask &= df[x].isin(f_x)\<close>: an empty list is falsy in Python, so the
  mask is left as it is.
\<close>

definition filter_step :: "row list \<Rightarrow> filter_state \<Rightarrow> filter_column \<Rightarrow> bool list \<Rightarrow> bool list" where
  "filter_step df fs c m =
     (if selected fs c \<noteq> [] then series_and m (isin (col (column_of c) df) (selected fs c))
      else m)"

text \<open>
  The mask after the statements for the columns \<open>cs\<close> have run in turn, starting from the
  age range of line 162.
\<close>

definition mask_on :: "filter_column list \<Rightarrow> row list \<Rightarrow> filter_state \<Rightarrow> bool list" where
  "mask_on cs df fs =
     fold (filter_step df fs) cs (between (col Age df) (fst (f_age fs)) (snd (f_age fs)))"

definition filter_columns :: "filter_column list" where
  "filter_columns = [F_Sexe, F_Diplome, F_Domaine, F_Stage, F_Mobilite, F_LinkedIn]"

definition mask :: "row list \<Rightarrow> filter_state \<Rightarrow> bool list" where
  "mask df fs = mask_on filter_columns df fs"

definition dff :: "row list \<Rightarrow> filter_state \<Rightarrow> row list" where
  "dff df fs = select_rows df (mask df fs)"

text \<open>The predicates of a filter state, read row by row.\<close>

definition age_in_range :: "filter_state \<Rightarrow> row \<Rightarrow> bool" where
  "age_in_range fs r =
     (case Age r of None \<Rightarrow> False | Some x \<Rightarrow> fst (f_age fs) \<le> x \<and> x \<le> snd (f_age fs))"

definition member_ok :: "filter_state \<Rightarrow> filter_column \<Rightarrow> row \<Rightarrow> bool" where
  "member_ok fs c r =
     (case column_of c r of None \<Rightarrow> False | Some x \<Rightarrow> x \<in> set (selected fs c))"

text \<open>A membership predicate is active when its list is not empty.\<close>

definition satisfies_on :: "filter_column list \<Rightarrow> filter_state \<Rightarrow> row \<Rightarrow> bool" where
  "satisfies_on cs fs r =
     (age_in_range fs r \<and> list_all (\<lambda>c. selected fs c = [] \<or> member_ok fs c r) cs)"

definition satisfies :: "filter_state \<Rightarrow> row \<Rightarrow> bool" where
  "satisfies fs r = satisfies_on filter_columns fs r"

section \<open>Key figures (lines 182 to 187)\<close>

text \<open>
  The figures are floats in the program. They are modelled as exact rationals: the
  rounding of the division and of the product is left out. NaN is \<open>None\<close>.
\<close>

definition nb_rep :: "row list \<Rightarrow> nat" where
  "nb_rep v = length v"

text \<open>\<open>Series.dropna()\<close>: the cells that are present, in order.\<close>

definition dropna :: "'a option list \<Rightarrow> 'a list" where
  "dropna s = List.map_filter (\<lambda>x. x) s"

text \<open>
  \<open>Series.mean()\<close> of a numeric column: missing cells are skipped, and with no cell left
  the result is NaN.
\<close>

definition mean_num :: "int option list \<Rightarrow> rat option" where
  "mean_num s =
     (let xs = dropna s
      in if xs = [] then None else Some (of_int (sum_list xs) / of_nat (length xs)))"

text \<open>\<open>Series.eq(v)\<close>: a boolean series, false where the cell is missing.\<close>

definition series_eq :: "'a option list \<Rightarrow> 'a \<Rightarrow> bool list" where
  "series_eq s v = map (\<lambda>x. x = Some v) s"

text \<open>
  \<open>Series.mean()\<close> of a boolean series: true counts for 1 and false for 0, and every cell
  of the series takes part.
\<close>

definition mean_bool :: "bool list \<Rightarrow> rat option" where
  "mean_bool s =
     (if s = [] then None else Some (of_nat (sum_list (map of_bool s)) / of_nat (length s)))"

definition avg_salary :: "row list \<Rightarrow> rat option" where
  "avg_salary v = (if nb_rep v \<noteq> 0 then mean_num (col Q6_Salaire_ZAR v) else Some 0)"

text \<open>\<open>v[c].eq(t).mean() * 100 if nb_rep else 0\<close>, the shape of lines 184 to 187.\<close>

definition rate :: "(row \<Rightarrow> ustr option) \<Rightarrow> ustr \<Rightarrow> row list \<Rightarrow> rat option" where
  "rate c t v =
     (if nb_rep v \<noteq> 0 then map_option (\<lambda>m. m * 100) (mean_bool (series_eq (col c v) t))
      else Some 0)"

definition stage_rate :: "row list \<Rightarrow> rat option" where
  "stage_rate v = rate Q2_Stage (lit ''Oui'') v"

definition mob_rate :: "row list \<Rightarrow> rat option" where
  "mob_rate v = rate Q7_Mobilite (lit ''Oui'') v"

definition entre_rate :: "row list \<Rightarrow> rat option" where
  "entre_rate v = rate Q9_Entreprenariat (lit ''Oui'') v"

definition li_rate :: "row list \<Rightarrow> rat option" where
  "li_rate v = rate Q10_LinkedIn (lit ''Oui'') v"

text \<open>
  The rate as the specification words it, for comparison: the share of matching rows
  among the rows whose cell is present, times 100, and 0 on the empty view. Where the view
  has rows but no cell is present the specification gives no value.
\<close>

definition rate_present_only :: "(row \<Rightarrow> ustr option) \<Rightarrow> ustr \<Rightarrow> row list \<Rightarrow> rat option" where
  "rate_present_only c t v =
     (let xs = dropna (col c v)
      in if v = [] then Some 0
         else if xs = [] then None
         else Some (of_nat (length (filter (\<lambda>x. x = t) xs)) / of_nat (length xs) * 100))"

section \<open>Frequency tables (lines 208 and 236)\<close>

text \<open>
  A table of counts that keeps its keys in the order in which they were first met, as the
  hash tables of pandas and Python's \<open>Counter\<close> do: \<open>incr x t\<close> counts one more \<open>x\<close>.
\<close>

fun incr :: "'a \<Rightarrow> ('a \<times> nat) list \<Rightarrow> ('a \<times> nat) list" where
  "incr x [] = [(x, 1)]"
| "incr x ((k, n) # t) = (if k = x then (k, n + 1) # t else (k, n) # incr x t)"

definition count_table :: "'a list \<Rightarrow> ('a \<times> nat) list" where
  "count_table xs = fold incr xs []"

text \<open>
  \<open>Series.value_counts()\<close>: missing cells are dropped, every distinct value has one entry,
  and the entries are then sorted by descending count. pandas sorts them with a quicksort,
  which is not stable, so the order in which entries of equal count come out is not fixed
  by the program: the sort is the parameter \<open>srt\<close>.
\<close>

definition value_counts ::
  "(('a \<times> nat) list \<Rightarrow> ('a \<times> nat) list) \<Rightarrow> 'a option list \<Rightarrow> ('a \<times> nat) list" where
  "value_counts srt s = srt (count_table (dropna s))"

text \<open>
  What is known of the sort on a table: its result holds the entries of the table, as
  many as the table has, by descending count.
\<close>

definition sorts_by_count ::
  "(('a \<times> nat) list \<Rightarrow> ('a \<times> nat) list) \<Rightarrow> ('a \<times> nat) list \<Rightarrow> bool" where
  "sorts_by_count srt t \<longleftrightarrow>
     set (srt t) = set t \<and> length (srt t) = length t \<and>
     sorted_wrt (\<lambda>p q. snd q \<le> snd p) (srt t)"

text \<open>
  Two sorts by descending count, for the examples: the first leaves entries of equal
  count in the order of the table, the second turns that order round.
\<close>

definition ties_kept :: "('a \<times> nat) list \<Rightarrow> ('a \<times> nat) list" where
  "ties_kept t = sort_key (\<lambda>(k, n). - int n) t"

definition ties_reversed :: "('a \<times> nat) list \<Rightarrow> ('a \<times> nat) list" where
  "ties_reversed t = rev (sort_key (\<lambda>(k, n). int n) t)"

text \<open>\<open>.head(n)\<close>: the first \<open>n\<close> entries, or all of them when there are fewer.\<close>

definition head :: "nat \<Rightarrow> 'b list \<Rightarrow> 'b list" where
  "head n t = take n t"

definition top_n ::
  "(('a \<times> nat) list \<Rightarrow> ('a \<times> nat) list) \<Rightarrow> nat \<Rightarrow> (row \<Rightarrow> 'a option) \<Rightarrow> row list \<Rightarrow>
     ('a \<times> nat) list" where
  "top_n srt n c v = head n (value_counts srt (col c v))"

definition vc :: "((ustr \<times> nat) list \<Rightarrow> (ustr \<times> nat) list) \<Rightarrow> row list \<Rightarrow> (ustr \<times> nat) list" where
  "vc srt v = value_counts srt (col Diplome v)"

definition dom_table ::
  "((ustr \<times> nat) list \<Rightarrow> (ustr \<times> nat) list) \<Rightarrow> row list \<Rightarrow> (ustr \<times> nat) list" where
  "dom_table srt v = top_n srt 10 Q1_Domaine v"

text \<open>The distinct elements of a list in the order of their first occurrence.\<close>

definition first_seen :: "'a list \<Rightarrow> 'a list" where
  "first_seen xs = rev (remdups (rev xs))"

section \<open>Cross-tabulation (lines 365 to 367)\<close>

text \<open>A table of counts: its row labels, its column labels and one row of cells per row label.\<close>

record crosstab_table =
  row_labels :: "ustr list"
  col_labels :: "ustr list"
  cells :: "nat list list"

text \<open>The pairs of cells, row by row, at the rows where both cells are present.\<close>

definition both_present :: "'a option list \<Rightarrow> 'b option list \<Rightarrow> ('a \<times> 'b) list" where
  "both_present a b =
     List.map_filter (\<lambda>(x, y). case x of None \<Rightarrow> None | Some x' \<Rightarrow> map_option (Pair x') y)
       (zip a b)"

text \<open>
  \<open>pd.crosstab(a, b)\<close>: the rows are grouped by the pair of their two cells, a row with
  either cell missing belonging to no group; the labels are the values found in the
  groups, sorted; a pair of labels without a group has the cell 0 (\<open>fill_value=0\<close>).
\<close>

definition crosstab :: "ustr option list \<Rightarrow> ustr option list \<Rightarrow> crosstab_table" where
  "crosstab a b =
     (let pairs = both_present a b;
          grouped = count_table pairs;
          rl = sort (remdups (map fst pairs));
          cl = sort (remdups (map snd pairs))
      in \<lparr>row_labels = rl, col_labels = cl,
          cells = map (\<lambda>x. map (\<lambda>y. case map_of grouped (x, y) of None \<Rightarrow> 0 | Some n \<Rightarrow> n) cl) rl\<rparr>)"

definition ct :: "row list \<Rightarrow> crosstab_table" where
  "ct v = crosstab (col Q3_Difficulte v) (col Diplome v)"

text \<open>
  \<open>ct.reset_index().melt(...)\<close>: the long form that the heat map is drawn from, one record
  (row label, column label, count) for every cell, column after column.
\<close>

definition melt :: "crosstab_table \<Rightarrow> (ustr \<times> ustr \<times> nat) list" where
  "melt t =
     concat (map (\<lambda>j. map (\<lambda>i. (row_labels t ! i, col_labels t ! j, cells t ! i ! j))
                         [0..<length (row_labels t)])
                 [0..<length (col_labels t)])"

section \<open>Keyword extraction (lines 269 to 283)\<close>

text \<open>
  The character tables of Python that the function consults are not part of the program,
  so they are parameters: \<open>str_lower\<close> is \<open>str.lower\<close>, \<open>is_word\<close> is the class \<open>\w\<close> of the
  regular expression (letters, digits and the underscore), and \<open>is_space\<close> is the
  whitespace of \<open>\s\<close> and of \<open>str.split\<close>.
\<close>

record unicode =
  str_lower :: "ustr \<Rightarrow> ustr"
  is_word :: "nat \<Rightarrow> bool"
  is_space :: "nat \<Rightarrow> bool"

text \<open>
  The stop words of lines 270 to 275. The letters beyond ASCII are written by their code
  points: 224 a grave, 234 e circumflex, 249 u grave, 232 e grave.
\<close>

definition stop_words :: "ustr list" where
  "stop_words =
     [lit ''le'', lit ''de'', lit ''un'', lit ''une'', lit ''et'', lit ''en'', [224],
      lit ''dans'', lit ''sur'', lit ''au'', lit ''aux'', lit ''du'', lit ''des'',
      lit ''la'', lit ''les'', lit ''je'', lit ''tu'', lit ''il'', lit ''elle'',
      lit ''nous'', lit ''vous'', lit ''ils'', lit ''elles'', lit ''est'', lit ''sont'',
      [234] @ lit ''tre'', lit ''avoir'', lit ''pour'', lit ''ce'', lit ''cet'',
      lit ''cette'', lit ''ces'', lit ''qui'', lit ''quoi'', lit ''dont'',
      lit ''o'' @ [249], lit ''comment'', lit ''pourquoi'', lit ''quand'', lit ''avec'',
      lit ''par'', lit ''plus'', lit ''moins'', lit ''tr'' @ [232] @ lit ''s'',
      lit ''tres'', lit ''bien'', lit ''mal'', lit ''ne'', lit ''pas'', lit ''se'',
      lit ''son'', lit ''sa'', lit ''ses'']"

text \<open>\<open>re.sub(r"[^\w\s]", " ", s)\<close>: a character that is neither of a word nor a space becomes a space (code point 32).\<close>

definition re_sub :: "unicode \<Rightarrow> ustr \<Rightarrow> ustr" where
  "re_sub U s = map (\<lambda>c. if is_word U c \<or> is_space U c then c else 32) s"

text \<open>\<open>s.replace(ch, " ")\<close> for a text \<open>ch\<close> of one character.\<close>

definition str_replace :: "nat \<Rightarrow> ustr \<Rightarrow> ustr" where
  "str_replace ch s = map (\<lambda>c. if c = ch then 32 else c) s"

text \<open>
  \<open>s.split()\<close>: the maximal runs of characters that are not whitespace. \<open>cur\<close> is the run
  being read.
\<close>

fun split_from :: "(nat \<Rightarrow> bool) \<Rightarrow> ustr \<Rightarrow> ustr \<Rightarrow> ustr list" where
  "split_from sp cur [] = (if cur = [] then [] else [cur])"
| "split_from sp cur (c # cs) =
     (if sp c then (if cur = [] then split_from sp [] cs else cur # split_from sp [] cs)
      else split_from sp (cur @ [c]) cs)"

definition str_split :: "unicode \<Rightarrow> ustr \<Rightarrow> ustr list" where
  "str_split U s = split_from (is_space U) [] s"

text \<open>
  Lines 278 and 279: the text in lower case, punctuation blanked, then the typographic
  apostrophe (code point 8217) and the plain one (39) blanked.
\<close>

definition normalise :: "unicode \<Rightarrow> ustr \<Rightarrow> ustr" where
  "normalise U t = str_replace 39 (str_replace 8217 (re_sub U (str_lower U t)))"

text \<open>Lines 281 and 282, for one word: \<open>counter[w] += 1\<close> when the word is kept.\<close>

definition count_word :: "int \<Rightarrow> ustr \<Rightarrow> (ustr \<times> nat) list \<Rightarrow> (ustr \<times> nat) list" where
  "count_word min_length w counter =
     (if min_length \<le> int (length w) \<and> w \<notin> set stop_words then incr w counter else counter)"

text \<open>Lines 278 to 282, for one text of the series.\<close>

definition count_text :: "unicode \<Rightarrow> int \<Rightarrow> ustr \<Rightarrow> (ustr \<times> nat) list \<Rightarrow> (ustr \<times> nat) list" where
  "count_text U min_length t counter =
     fold (count_word min_length) (str_split U (normalise U t)) counter"

definition extract_keywords :: "unicode \<Rightarrow> ustr option list \<Rightarrow> int \<Rightarrow> (ustr \<times> nat) list" where
  "extract_keywords U series min_length =
     fold (count_text U min_length) (dropna series) []"

text \<open>
  A separator: whitespace, a character that is not of a word, or one of the two
  apostrophes.
\<close>

definition separator :: "unicode \<Rightarrow> nat \<Rightarrow> bool" where
  "separator U c \<longleftrightarrow> is_space U c \<or> \<not> is_word U c \<or> c = 39 \<or> c = 8217"

text \<open>The words of a text, and the test of line 281.\<close>

definition tokens :: "unicode \<Rightarrow> ustr \<Rightarrow> ustr list" where
  "tokens U t = str_split U (normalise U t)"

definition kept :: "int \<Rightarrow> ustr \<Rightarrow> bool" where
  "kept min_length w \<longleftrightarrow> min_length \<le> int (length w) \<and> w \<notin> set stop_words"

text \<open>
  The extraction as the specification words it, for comparison: in the lower-case text
  every character that is neither alphanumeric nor whitespace becomes a space, the
  alphanumeric characters being those of \<open>\w\<close> other than the underscore (code point 95);
  the words are then split off, tested and counted as in the program.
\<close>

definition spec_tokens :: "unicode \<Rightarrow> ustr \<Rightarrow> ustr list" where
  "spec_tokens U t =
     str_split U
       (map (\<lambda>c. if is_word U c \<and> c \<noteq> 95 \<or> is_space U c then c else 32) (str_lower U t))"

definition spec_keywords :: "unicode \<Rightarrow> ustr option list \<Rightarrow> int \<Rightarrow> (ustr \<times> nat) list" where
  "spec_keywords U series min_length =
     count_table (filter (kept min_length) (concat (map (spec_tokens U) (dropna series))))"

text \<open>
  Python's tables on ASCII text, for the examples: the letters \<open>A\<close> to \<open>Z\<close> go to lower
  case; digits, letters and the underscore are of a word; tab to carriage return, the
  four separators 28 to 31 and the space are whitespace. Beyond ASCII these are not
  Python's tables.
\<close>

definition ascii :: unicode where
  "ascii =
     \<lparr>str_lower = map (\<lambda>c. if 65 \<le> c \<and> c \<le> 90 then c + 32 else c),
      is_word = (\<lambda>c. 48 \<le> c \<and> c \<le> 57 \<or> 65 \<le> c \<and> c \<le> 90 \<or> c = 95 \<or> 97 \<le> c \<and> c \<le> 122),
      is_space = (\<lambda>c. 9 \<le> c \<and> c \<le> 13 \<or> 28 \<le> c \<and> c \<le> 32)\<rparr>"

section \<open>Adding an answer (lines 388 and 410 to 425)\<close>

text \<open>
  A table with its column names. A row's cell in a column that the table does not have is
  missing.
\<close>

record table =
  columns :: "ustr list"
  rows :: "row list"

text \<open>What the form's widgets hold when the button is pressed (lines 392 to 408).\<close>

record answer =
  age :: int
  sexe :: ustr
  dipl :: ustr
  domaine :: ustr
  stage :: ustr
  diff :: ustr
  info :: ustr
  langues :: ustr
  salaire :: int
  mobilite :: ustr
  form :: int
  entre :: ustr
  li :: ustr
  candid :: int
  mentor :: ustr

text \<open>
  The file at \<open>csv_path\<close> when the button is pressed: absent, present but not readable as
  a table, or a table.
\<close>

datatype source = NoFile | Unreadable | Csv table

text \<open>
  \<open>ValueError\<close> is raised by \<open>int\<close> on NaN at line 388, outside any handler. \<open>ReadError\<close>
  stands for the exception of \<open>pd.read_csv\<close> caught at line 424, after which the file is
  as it was.
\<close>

datatype py_error = ValueError | ReadError

text \<open>\<open>Series.max()\<close>: missing cells are skipped, and with no cell left the result is NaN.\<close>

definition series_max :: "int option list \<Rightarrow> int option" where
  "series_max s = (case dropna s of [] \<Rightarrow> None | x # xs \<Rightarrow> Some (fold max xs x))"

text \<open>
  Lines 152 and 153: the ends of the age slider, which are also the range it starts
  with. \<open>min\<close> and \<open>max\<close> skip the missing ages, and \<open>int\<close> raises on the NaN that they give
  when no age is present.
\<close>

definition age_bounds :: "row list \<Rightarrow> py_error + int \<times> int" where
  "age_bounds df =
     (case dropna (col Age df) of
        [] \<Rightarrow> Inl ValueError
      | x # xs \<Rightarrow> Inr (fold min xs x, fold max xs x))"

text \<open>
  Line 388, \<open>_id\<close>: computed when the page is drawn, from \<open>df\<close>, the dataset that the session
  holds in memory.
\<close>

definition auto_id :: "table \<Rightarrow> py_error + int" where
  "auto_id df =
     (if lit ''ID'' \<in> set (columns df)
      then (case series_max (col ID (rows df)) of None \<Rightarrow> Inl ValueError | Some k \<Rightarrow> Inr (k + 1))
      else Inr (0 + 1))"

text \<open>Lines 411 to 417. In the column names 194 is A circumflex, 244 o circumflex, 233 e acute.\<close>

definition new_row :: "int \<Rightarrow> answer \<Rightarrow> row" where
  "new_row i a =
     \<lparr>ID = Some i, Age = Some (age a), Sexe = Some (sexe a), Diplome = Some (dipl a),
      Q1_Domaine = Some (domaine a), Q2_Stage = Some (stage a), Q3_Difficulte = Some (diff a),
      Q4_Informatique = Some (info a), Q5_Langues = Some (langues a),
      Q6_Salaire_ZAR = Some (salaire a), Q7_Mobilite = Some (mobilite a),
      Q8_Formation = Some (form a), Q9_Entreprenariat = Some (entre a),
      Q10_LinkedIn = Some (li a), Q11_Candidatures = Some (candid a),
      Q12_Mentorat = Some (mentor a)\<rparr>"

definition new_row_columns :: "ustr list" where
  "new_row_columns =
     [lit ''ID'', [194] @ lit ''ge'', lit ''Sexe'', lit ''Dipl'' @ [244] @ lit ''me'',
      lit ''Q1_Domaine'', lit ''Q2_Stage'', lit ''Q3_Difficult'' @ [233],
      lit ''Q4_Informatique'', lit ''Q5_Langues'', lit ''Q6_Salaire_ZAR'',
      lit ''Q7_Mobilit'' @ [233], lit ''Q8_Formation'', lit ''Q9_Entreprenariat'',
      lit ''Q10_LinkedIn'', lit ''Q11_Candidatures'', lit ''Q12_Mentorat'']"

text \<open>
  \<open>pd.concat([base, pd.DataFrame([new_row])], ignore_index=True)\<close>: the rows of \<open>base\<close>, then
  the new row; the columns of \<open>base\<close>, then those of the new row that \<open>base\<close> lacks.
\<close>

definition concat_row :: "table \<Rightarrow> row \<Rightarrow> table" where
  "concat_row base r =
     \<lparr>columns = columns base @ filter (\<lambda>c. c \<notin> set (columns base)) new_row_columns,
      rows = rows base @ [r]\<rparr>"

text \<open>
  The press of the button: the identifier is the one of line 388, the table is read from
  the file (line 419), or copied from \<open>df\<close> when there is no file, and written back with
  the new row (the write is taken to succeed). The result is the new content of the file.
\<close>

definition append_answer :: "source \<Rightarrow> table \<Rightarrow> answer \<Rightarrow> py_error + source" where
  "append_answer src df a =
     (case auto_id df of
        Inl e \<Rightarrow> Inl e
      | Inr i \<Rightarrow>
          (case src of
             NoFile \<Rightarrow> Inr (Csv (concat_row df (new_row i a)))
           | Unreadable \<Rightarrow> Inl ReadError
           | Csv base \<Rightarrow> Inr (Csv (concat_row base (new_row i a)))))"

section \<open>Export and reload (lines 124 to 129 and 379 to 381)\<close>

text \<open>
  A cell of a table as pandas holds it: missing, a number, or a text. The type of the
  numbers is left open.
\<close>

datatype 'n cell = NA | Num 'n | Txt ustr

text \<open>A table by rows, under its column names.\<close>

record 'n frame =
  header :: "ustr list"
  body :: "'n cell list list"

text \<open>
  The way pandas writes and reads a single value is not part of the program, so it is a
  parameter: \<open>write_num\<close> is the text that \<open>to_csv\<close> writes for a number, \<open>read_num\<close> gives
  the number that \<open>read_csv\<close> reads in a field when it reads one, and \<open>is_na\<close> holds of the
  fields that \<open>read_csv\<close> takes for a missing value.
\<close>

record 'n codec =
  write_num :: "'n \<Rightarrow> ustr"
  read_num :: "ustr \<Rightarrow> 'n option"
  is_na :: "ustr \<Rightarrow> bool"

text \<open>
  A file is modelled by its records of fields, the first record being the header. The
  quoting of fields and the encoding (the byte-order mark and UTF-8), which the writer
  and the reader undo for each other, are left out.
\<close>

type_synonym csv = "ustr list list"

definition write_cell :: "'n codec \<Rightarrow> 'n cell \<Rightarrow> ustr" where
  "write_cell C c = (case c of NA \<Rightarrow> [] | Num n \<Rightarrow> write_num C n | Txt s \<Rightarrow> s)"

text \<open>\<open>to_csv(index=False)\<close>: the header, then one record per row; a missing cell is written as the empty field.\<close>

definition to_csv :: "'n codec \<Rightarrow> 'n frame \<Rightarrow> csv" where
  "to_csv C f = header f # map (map (write_cell C)) (body f)"

text \<open>
  The type of a column is inferred from all of its fields: when every field that is not
  missing reads as a number the column holds numbers, otherwise its fields are kept as
  texts.
\<close>

definition read_column :: "'n codec \<Rightarrow> ustr list \<Rightarrow> 'n cell list" where
  "read_column C fs =
     (if list_all (\<lambda>f. is_na C f \<or> read_num C f \<noteq> None) fs
      then map (\<lambda>f. if is_na C f then NA
                     else (case read_num C f of None \<Rightarrow> NA | Some n \<Rightarrow> Num n)) fs
      else map (\<lambda>f. if is_na C f then NA else Txt f) fs)"

text \<open>The field of a record at a column; a record that is too short is filled up with empty fields.\<close>

definition field_at :: "ustr list \<Rightarrow> nat \<Rightarrow> ustr" where
  "field_at r j = (if j < length r then r ! j else [])"

text \<open>
  \<open>pd.read_csv\<close>: a file without a header is an error, and so is a record with more fields
  than the header has names.
\<close>

definition pd_read_csv :: "'n codec \<Rightarrow> csv \<Rightarrow> py_error + 'n frame" where
  "pd_read_csv C file =
     (case file of
        [] \<Rightarrow> Inl ReadError
      | h # rs \<Rightarrow>
          if \<exists>r \<in> set rs. length h < length r then Inl ReadError
          else
            (let cols = map (\<lambda>j. read_column C (map (\<lambda>r. field_at r j) rs)) [0..<length h]
             in Inr \<lparr>header = h,
                     body = map (\<lambda>i. map (\<lambda>c. c ! i) cols) [0..<length rs]\<rparr>))"

text \<open>\<open>str.strip()\<close>: whitespace removed at both ends.\<close>

definition strip :: "unicode \<Rightarrow> ustr \<Rightarrow> ustr" where
  "strip U s = rev (dropWhile (is_space U) (rev (dropWhile (is_space U) s)))"

text \<open>Lines 125 to 129, \<open>_read_csv\<close>: the table of \<open>pd.read_csv\<close> with its column names stripped.\<close>

definition read_csv :: "unicode \<Rightarrow> 'n codec \<Rightarrow> csv \<Rightarrow> py_error + 'n frame" where
  "read_csv U C file =
     (case pd_read_csv C file of
        Inl e \<Rightarrow> Inl e
      | Inr df \<Rightarrow> Inr (df\<lparr>header := map (strip U) (header df)\<rparr>))"

text \<open>Lines 379 to 381: what the download button hands out for a view.\<close>

definition export :: "'n codec \<Rightarrow> 'n frame \<Rightarrow> csv" where
  "export C v = to_csv C v"

text \<open>The rows of the survey table as a frame of cells.\<close>

definition num_cell :: "int option \<Rightarrow> int cell" where
  "num_cell x = (case x of None \<Rightarrow> NA | Some n \<Rightarrow> Num n)"

definition txt_cell :: "ustr option \<Rightarrow> int cell" where
  "txt_cell x = (case x of None \<Rightarrow> NA | Some s \<Rightarrow> Txt s)"

definition cells_of :: "row \<Rightarrow> int cell list" where
  "cells_of r =
     [num_cell (ID r), num_cell (Age r), txt_cell (Sexe r), txt_cell (Diplome r),
      txt_cell (Q1_Domaine r), txt_cell (Q2_Stage r), txt_cell (Q3_Difficulte r),
      txt_cell (Q4_Informatique r), txt_cell (Q5_Langues r), num_cell (Q6_Salaire_ZAR r),
      txt_cell (Q7_Mobilite r), num_cell (Q8_Formation r), txt_cell (Q9_Entreprenariat r),
      txt_cell (Q10_LinkedIn r), num_cell (Q11_Candidatures r), txt_cell (Q12_Mentorat r)]"

definition frame_of :: "row list \<Rightarrow> int frame" where
  "frame_of v = \<lparr>header = new_row_columns, body = map cells_of v\<rparr>"

text \<open>
  pandas on whole numbers, for the examples: a number is written in decimal digits, with
  a minus sign when negative, and a field of digits with an optional sign reads as a
  number. The missing markers are those that \<open>read_csv\<close> documents.
\<close>

fun digits :: "nat \<Rightarrow> ustr" where
  "digits n = (if n < 10 then [48 + n] else digits (n div 10) @ [48 + n mod 10])"

definition show_int :: "int \<Rightarrow> ustr" where
  "show_int i = (if i < 0 then 45 # digits (nat (- i)) else digits (nat i))"

definition parse_nat :: "ustr \<Rightarrow> nat option" where
  "parse_nat s =
     (if s \<noteq> [] \<and> list_all (\<lambda>c. 48 \<le> c \<and> c \<le> 57) s
      then Some (fold (\<lambda>c a. 10 * a + (c - 48)) s 0) else None)"

definition parse_int :: "ustr \<Rightarrow> int option" where
  "parse_int s =
     (case s of
        [] \<Rightarrow> None
      | c # cs \<Rightarrow>
          if c = 45 then map_option (\<lambda>n. - int n) (parse_nat cs)
          else if c = 43 then map_option int (parse_nat cs)
          else map_option int (parse_nat s))"

definition na_markers :: "ustr list" where
  "na_markers =
     [[], lit ''#N/A'', lit ''#N/A N/A'', lit ''#NA'', lit ''-1.#IND'', lit ''-1.#QNAN'',
      lit ''-NaN'', lit ''-nan'', lit ''1.#IND'', lit ''1.#QNAN'', lit ''<NA>'', lit ''N/A'',
      lit ''NA'', lit ''NULL'', lit ''NaN'', lit ''None'', lit ''n/a'', lit ''nan'',
      lit ''null'']"

definition int_codec :: "int codec" where
  "int_codec = \<lparr>write_num = show_int, read_num = parse_int, is_na = (\<lambda>f. f \<in> set na_markers)\<rparr>"

text \<open>
  What makes a column come back as it was written: each of its cells is read back as
  itself when read alone, and the column is either free of texts, or free of numbers with
  at least one text that does not read as a number.
\<close>

definition reads_back :: "'n codec \<Rightarrow> 'n cell \<Rightarrow> bool" where
  "reads_back C c =
     (case c of
        NA \<Rightarrow> True
      | Num n \<Rightarrow> read_num C (write_num C n) = Some n \<and> \<not> is_na C (write_num C n)
      | Txt s \<Rightarrow> \<not> is_na C s)"

definition is_text :: "'n cell \<Rightarrow> bool" where
  "is_text c = (case c of Txt s \<Rightarrow> True | _ \<Rightarrow> False)"

definition is_number :: "'n cell \<Rightarrow> bool" where
  "is_number c = (case c of Num n \<Rightarrow> True | _ \<Rightarrow> False)"

definition plain_text :: "'n codec \<Rightarrow> 'n cell \<Rightarrow> bool" where
  "plain_text C c = (case c of Txt s \<Rightarrow> read_num C s = None | _ \<Rightarrow> False)"

definition column_kept :: "'n codec \<Rightarrow> 'n cell list \<Rightarrow> bool" where
  "column_kept C cs \<longleftrightarrow>
     list_all (reads_back C) cs \<and>
     (list_all (\<lambda>c. \<not> is_text c) cs \<or>
      list_all (\<lambda>c. \<not> is_number c) cs \<and> list_ex (plain_text C) cs)"

definition column :: "'n frame \<Rightarrow> nat \<Rightarrow> 'n cell list" where
  "column v j = map (\<lambda>r. r ! j) (body v)"

section \<open>Example data\<close>

definition sample_answer :: answer where
  "sample_answer =
     \<lparr>age = 23, sexe = lit ''F'', dipl = lit ''Master'', domaine = lit ''Finance'',
      stage = lit ''Oui'', diff = lit ''Aucune'', info = lit ''Moyen'', langues = lit ''Anglais'',
      salaire = 12000, mobilite = lit ''Oui'', form = 4, entre = lit ''Non'', li = lit ''Oui'',
      candid = 5, mentor = lit ''Non''\<rparr>"

definition blank :: row where
  "blank = \<lparr>ID = None, Age = None, Sexe = None, Diplome = None, Q1_Domaine = None,
     Q2_Stage = None, Q3_Difficulte = None, Q4_Informatique = None, Q5_Langues = None,
     Q6_Salaire_ZAR = None, Q7_Mobilite = None, Q8_Formation = None,
     Q9_Entreprenariat = None, Q10_LinkedIn = None, Q11_Candidatures = None,
     Q12_Mentorat = None\<rparr>"

definition no_filter :: "int \<times> int \<Rightarrow> filter_state" where
  "no_filter rng = \<lparr>f_age = rng, f_sexe = [], f_diplome = [], f_domaine = [], f_stage = [],
     f_mobilite = [], f_linkedin = []\<rparr>"

definition stage_rows :: "row list" where
  "stage_rows = [blank\<lparr>Age := Some 24, Q2_Stage := Some (lit ''Oui'')\<rparr>, blank\<lparr>Age := Some 26\<rparr>]"

definition diploma_rows :: "row list" where
  "diploma_rows =
     [blank\<lparr>Age := Some 21, Diplome := Some (lit ''L'')\<rparr>,
      blank\<lparr>Age := Some 22, Diplome := Some (lit ''M'')\<rparr>,
      blank\<lparr>Age := Some 23\<rparr>,
      blank\<lparr>Age := Some 24, Diplome := Some (lit ''M'')\<rparr>,
      blank\<lparr>Age := Some 25, Diplome := Some (lit ''L'')\<rparr>,
      blank\<lparr>Age := Some 26, Diplome := Some (lit ''D'')\<rparr>]"

definition diploma_view :: "row list" where
  "diploma_view = dff diploma_rows (no_filter (21, 26))"

definition keyword_rows :: "row list" where
  "keyword_rows =
     [blank\<lparr>Age := Some 22, Q1_Domaine := Some (lit ''Emploi_'')\<rparr>,
      blank\<lparr>Age := Some 23, Q1_Domaine := Some (lit ''emploi'')\<rparr>,
      blank\<lparr>Age := Some 24, Q1_Domaine := Some (lit ''de_la'')\<rparr>]"

definition cross_rows :: "row list" where
  "cross_rows =
     [blank\<lparr>Q3_Difficulte := Some (lit ''A''), Diplome := Some (lit ''X'')\<rparr>,
      blank\<lparr>Q3_Difficulte := Some (lit ''A''), Diplome := Some (lit ''Y'')\<rparr>,
      blank\<lparr>Q3_Difficulte := Some (lit ''B''), Diplome := Some (lit ''X'')\<rparr>]"

definition lone_rows :: "row list" where
  "lone_rows =
     [blank\<lparr>Q3_Difficulte := Some (lit ''A''), Diplome := Some (lit ''X'')\<rparr>,
      blank\<lparr>Q3_Difficulte := Some (lit ''B'')\<rparr>]"

definition language_rows :: "row list" where
  "language_rows =
     [blank\<lparr>ID := Some 1, Age := Some 20, Q5_Langues := Some (lit ''Anglais'')\<rparr>,
      blank\<lparr>ID := Some 2, Age := Some 30, Q5_Langues := Some (lit ''2'')\<rparr>]"

definition three_rows :: "row list" where
  "three_rows =
     [blank\<lparr>ID := Some 1, Age := Some 22, Sexe := Some (lit ''M'')\<rparr>,
      blank\<lparr>ID := Some 2, Age := Some 25, Sexe := Some (lit ''F'')\<rparr>,
      blank\<lparr>ID := Some 3, Age := Some 30, Sexe := Some (lit ''M'')\<rparr>]"

section \<open>Filter engine: lemmas\<close>

lemma select_rows_map:
  "select_rows df (map p df) = filter p df"
  by (induction df) (simp_all add: select_rows_def)

lemma between_pointwise:
  "between (col Age df) (fst (f_age fs)) (snd (f_age fs)) = map (age_in_range fs) df"
  by (simp add: between_def col_def age_in_range_def)

lemma series_and_pointwise:
  "series_and (map p df) (map q df) = map (\<lambda>r. p r \<and> q r) df"
  by (induction df) (simp_all add: series_and_def)

lemma isin_pointwise:
  "isin (col (column_of c) df) (selected fs c) = map (member_ok fs c) df"
  by (simp add: isin_def col_def member_ok_def)

lemma filter_step_pointwise:
  "filter_step df fs c (map p df) =
     map (\<lambda>r. p r \<and> (selected fs c = [] \<or> member_ok fs c r)) df"
  by (simp add: filter_step_def isin_pointwise series_and_pointwise)

lemma fold_filter_step_pointwise:
  "fold (filter_step df fs) cs (map p df) =
     map (\<lambda>r. p r \<and> list_all (\<lambda>c. selected fs c = [] \<or> member_ok fs c r) cs) df"
proof (induction cs arbitrary: p)
  case Nil
  show ?case by simp
next
  case (Cons c cs)
  show ?case
    by (simp add: filter_step_pointwise Cons.IH)
qed

lemma mask_on_pointwise:
  "mask_on cs df fs = map (satisfies_on cs fs) df"
  by (simp add: mask_on_def between_pointwise fold_filter_step_pointwise satisfies_on_def)

lemma dff_filter:
  "dff df fs = filter (satisfies fs) df"
proof -
  have "satisfies fs = satisfies_on filter_columns fs"
    by (rule ext) (simp add: satisfies_def)
  then show ?thesis
    by (simp add: dff_def mask_def mask_on_pointwise select_rows_map)
qed

lemma list_all_removeAll:
  "P c \<Longrightarrow> list_all P (removeAll c cs) = list_all P cs"
  by (induction cs) auto

lemma satisfies_all_columns:
  "satisfies fs r \<longleftrightarrow>
     age_in_range fs r \<and> (\<forall>c. selected fs c \<noteq> [] \<longrightarrow> member_ok fs c r)"
proof -
  have "set filter_columns = UNIV"
  proof -
    have "c \<in> set filter_columns" for c
      by (cases c) (simp_all add: filter_columns_def)
    then show ?thesis by blast
  qed
  then show ?thesis
    by (auto simp: satisfies_def satisfies_on_def list_all_iff)
qed

section \<open>Filter engine: results\<close>

text \<open>
  C1. For every dataset and every filter state, the filtered view \<open>dff\<close> is a subsequence of
  the dataset (order kept, no row duplicated or invented), and it holds exactly the rows
  that satisfy the conjunction of the active predicates: the inclusive age range, and
  membership for every column whose list is not empty.
\<close>

theorem filtered_view_exact:
  "subseq (dff df fs) df \<and>
   dff df fs = filter (satisfies fs) df \<and>
   (\<forall>r. satisfies fs r \<longleftrightarrow>
      age_in_range fs r \<and> (\<forall>c. selected fs c \<noteq> [] \<longrightarrow> member_ok fs c r))"
  by (simp add: dff_filter satisfies_all_columns [symmetric])

theorem filtered_view_exact_witness:
  "selected ((no_filter (23, 30))\<lparr>f_sexe := [lit ''M'']\<rparr>) F_Sexe \<noteq> [] \<and>
   dff three_rows ((no_filter (23, 30))\<lparr>f_sexe := [lit ''M'']\<rparr>) =
     [blank\<lparr>ID := Some 3, Age := Some 30, Sexe := Some (lit ''M'')\<rparr>] \<and>
   dff three_rows (no_filter (23, 30)) =
     [blank\<lparr>ID := Some 2, Age := Some 25, Sexe := Some (lit ''F'')\<rparr>,
      blank\<lparr>ID := Some 3, Age := Some 30, Sexe := Some (lit ''M'')\<rparr>]"
  using filtered_view_exact [of three_rows "(no_filter (23, 30))\<lparr>f_sexe := [lit ''M'']\<rparr>"]
    filtered_view_exact [of three_rows "no_filter (23, 30)"]
  by (simp add: satisfies_def satisfies_on_def filter_columns_def age_in_range_def
      member_ok_def three_rows_def blank_def no_filter_def lit_def)

text \<open>
  C2. For every dataset and every categorical filter column, when the list chosen for that
  column is empty the filtered view is the one computed with that column's statement
  left out altogether: an empty list constrains nothing.
\<close>

theorem empty_selection_is_no_filter:
  "selected fs c = [] \<Longrightarrow>
     dff df fs = select_rows df (mask_on (removeAll c filter_columns) df fs)"
proof -
  assume e: "selected fs c = []"
  have "satisfies_on (removeAll c filter_columns) fs r = satisfies fs r" for r
    using e by (simp add: satisfies_def satisfies_on_def list_all_removeAll)
  then have "satisfies_on (removeAll c filter_columns) fs = satisfies fs"
    by (rule ext)
  then have "filter (satisfies_on (removeAll c filter_columns) fs) df = filter (satisfies fs) df"
    by simp
  then show ?thesis
    by (simp add: dff_filter mask_on_pointwise select_rows_map)
qed

theorem empty_selection_is_no_filter_witness:
  "selected (no_filter (23, 30)) F_Sexe = [] \<and>
   dff three_rows (no_filter (23, 30)) =
     select_rows three_rows
       (mask_on [F_Diplome, F_Domaine, F_Stage, F_Mobilite, F_LinkedIn] three_rows
          (no_filter (23, 30))) \<and>
   dff three_rows (no_filter (23, 30)) \<noteq> []"
proof -
  have e: "selected (no_filter (23, 30)) F_Sexe = []"
    by (simp add: no_filter_def)
  have v: "dff three_rows (no_filter (23, 30)) \<noteq> []"
    by (simp add: dff_filter satisfies_def satisfies_on_def filter_columns_def
        age_in_range_def three_rows_def blank_def no_filter_def)
  show ?thesis
    using e v empty_selection_is_no_filter [OF e, of three_rows]
    by (simp add: filter_columns_def)
qed

text \<open>
  C10. For every dataset and every filter state, the widest age range and empty lists
  included, every row of the filtered view has an age: the range test of line 162 always
  runs, and it is false on a missing age.
\<close>

theorem filtered_view_has_age:
  "r \<in> set (dff df fs) \<Longrightarrow> Age r \<noteq> None"
  by (auto simp: dff_filter satisfies_def satisfies_on_def age_in_range_def
      split: option.splits)

theorem filtered_view_has_age_witness:
  "age_bounds [blank, blank\<lparr>Age := Some 25\<rparr>] = Inr (25, 25) \<and>
   blank\<lparr>Age := Some 25\<rparr> \<in> set (dff [blank, blank\<lparr>Age := Some 25\<rparr>] (no_filter (25, 25))) \<and>
   Age (blank\<lparr>Age := Some 25\<rparr>) \<noteq> None \<and>
   dff [blank, blank\<lparr>Age := Some 25\<rparr>] (no_filter (25, 25)) = [blank\<lparr>Age := Some 25\<rparr>]"
proof -
  have w: "age_bounds [blank, blank\<lparr>Age := Some 25\<rparr>] = Inr (25, 25)"
    by (simp add: age_bounds_def dropna_def col_def blank_def)
  have v: "dff [blank, blank\<lparr>Age := Some 25\<rparr>] (no_filter (25, 25)) = [blank\<lparr>Age := Some 25\<rparr>]"
    by (simp add: dff_filter satisfies_def satisfies_on_def filter_columns_def
        age_in_range_def blank_def no_filter_def)
  have m: "blank\<lparr>Age := Some 25\<rparr> \<in> set (dff [blank, blank\<lparr>Age := Some 25\<rparr>] (no_filter (25, 25)))"
    by (simp add: v)
  show ?thesis
    using w m v filtered_view_has_age [OF m] by simp
qed

section \<open>Key figures: results\<close>

lemma sum_of_bool_count:
  "sum_list (map (\<lambda>x. of_bool (p x)) xs) = length (filter p xs)"
  by (induction xs) simp_all

lemma series_eq_col:
  "series_eq (col c v) t = map (\<lambda>r. c r = Some t) v"
  by (simp add: series_eq_def col_def comp_def)

lemma rate_nonempty:
  "v \<noteq> [] \<Longrightarrow>
     rate c t v = Some (of_nat (length (filter (\<lambda>r. c r = Some t) v)) / of_nat (length v) * 100)"
  by (simp add: rate_def nb_rep_def mean_bool_def series_eq_col comp_def sum_of_bool_count)

text \<open>
  C3, as the specification has it, fails: on a view of two rows, one with \<open>Oui\<close> and one
  with the cell missing, the program's rate is 50 (the missing cell counts in the
  denominator as a row that does not match), where the rate over the present cells is 100.
\<close>

theorem rate_counts_missing_rows:
  "stage_rate stage_rows = Some 50 \<and>
   rate_present_only Q2_Stage (lit ''Oui'') stage_rows = Some 100 \<and>
   stage_rate stage_rows \<noteq> rate_present_only Q2_Stage (lit ''Oui'') stage_rows"
  by (simp add: stage_rate_def rate_def nb_rep_def mean_bool_def series_eq_def col_def
      rate_present_only_def dropna_def stage_rows_def blank_def lit_def)

text \<open>
  C3, amended. For every view and every categorical column, the rate is 100 times the
  number of rows whose cell equals the target, divided by the number of rows of the view
  (a row whose cell is missing counts in the denominator and does not match); it is 0 on
  the empty view, and it lies between 0 and 100.
\<close>

theorem rate_over_all_rows:
  "rate c t v =
     (if v = [] then Some 0
      else Some (of_nat (length (filter (\<lambda>r. c r = Some t) v)) / of_nat (length v) * 100)) \<and>
   (\<exists>p. rate c t v = Some p \<and> 0 \<le> p \<and> p \<le> 100)"
proof (cases "v = []")
  case True
  then show ?thesis by (simp add: rate_def nb_rep_def)
next
  case False
  let ?k = "length (filter (\<lambda>r. c r = Some t) v)"
  have le: "?k \<le> length v" by simp
  have pos: "0 < length v" using False by simp
  have "(of_nat ?k :: rat) \<le> of_nat (length v)"
    using le by (simp only: of_nat_le_iff)
  then have "(of_nat ?k :: rat) / of_nat (length v) * 100 \<le> 100"
    using pos by (simp add: divide_le_eq)
  moreover have "0 \<le> (of_nat ?k :: rat) / of_nat (length v) * 100" by simp
  ultimately show ?thesis using False by (simp add: rate_nonempty)
qed

theorem rate_over_all_rows_witness:
  "stage_rows \<noteq> [] \<and> rate Q2_Stage (lit ''Oui'') stage_rows = Some 50"
  using rate_over_all_rows [of Q2_Stage "lit ''Oui''" stage_rows]
  by (simp add: stage_rows_def blank_def lit_def)

text \<open>
  C4. When the filtered view is empty, the count is 0 and the mean salary and the four
  rates are the number 0: the guard \<open>if nb_rep else 0\<close> keeps the mean of an empty series,
  which is NaN, from being computed.
\<close>

theorem empty_view_figures:
  "dff df fs = [] \<Longrightarrow>
     nb_rep (dff df fs) = 0 \<and> avg_salary (dff df fs) = Some 0 \<and>
     stage_rate (dff df fs) = Some 0 \<and> mob_rate (dff df fs) = Some 0 \<and>
     entre_rate (dff df fs) = Some 0 \<and> li_rate (dff df fs) = Some 0"
  by (simp add: nb_rep_def avg_salary_def stage_rate_def mob_rate_def entre_rate_def
      li_rate_def rate_def)

theorem empty_view_figures_witness:
  "dff three_rows (no_filter (40, 50)) = [] \<and>
   nb_rep (dff three_rows (no_filter (40, 50))) = 0 \<and>
   avg_salary (dff three_rows (no_filter (40, 50))) = Some 0 \<and>
   stage_rate (dff three_rows (no_filter (40, 50))) = Some 0"
proof -
  have e: "dff three_rows (no_filter (40, 50)) = []"
    by (simp add: dff_filter satisfies_def satisfies_on_def filter_columns_def
        age_in_range_def three_rows_def blank_def no_filter_def)
  show ?thesis
    using e empty_view_figures [OF e] by simp
qed

section \<open>Frequency tables: results\<close>

lemma incr_keys: "map fst (incr x t) = (if x \<in> fst ` set t then map fst t else map fst t @ [x])"
  by (induction t) (force+)

lemma incr_map_of: "map_of (incr x t) = (map_of t)(x \<mapsto> (case map_of t x of None \<Rightarrow> 1 | Some n \<Rightarrow> n + 1))"
  by (induction t) (auto simp: fun_eq_iff)

lemma incr_sum: "sum_list (map snd (incr x t)) = sum_list (map snd t) + 1"
  by (induction t) auto

lemma count_table_snoc: "count_table (xs @ [x]) = incr x (count_table xs)"
  by (simp add: count_table_def)

lemma first_seen_snoc: "first_seen (xs @ [x]) = (if x \<in> set xs then first_seen xs else first_seen xs @ [x])"
  by (simp add: first_seen_def)

lemma set_first_seen: "set (first_seen xs) = set xs"
  by (simp add: first_seen_def)

lemma distinct_first_seen: "distinct (first_seen xs)"
  by (simp add: first_seen_def)

lemma count_table_keys: "map fst (count_table xs) = first_seen xs"
proof (induction xs rule: rev_induct)
  case Nil
  show ?case by (simp add: count_table_def first_seen_def)
next
  case (snoc x xs)
  have "fst ` set (count_table xs) = set xs"
    using snoc.IH set_first_seen [of xs] by (metis set_map)
  then show ?case
    by (simp add: count_table_snoc first_seen_snoc incr_keys snoc.IH)
qed

lemma count_table_map_of:
  "map_of (count_table xs) k = (if k \<in> set xs then Some (count_list xs k) else None)"
proof (induction xs arbitrary: k rule: rev_induct)
  case Nil
  show ?case by (simp add: count_table_def)
next
  case (snoc x xs)
  show ?case
    by (simp add: count_table_snoc incr_map_of snoc.IH)
qed

lemma count_table_sum: "sum_list (map snd (count_table xs)) = length xs"
  by (induction xs rule: rev_induct) (simp_all add: count_table_snoc incr_sum count_table_def)

lemma count_table_entry:
  "(k, n) \<in> set (count_table xs) \<longleftrightarrow> k \<in> set xs \<and> n = count_list xs k"
proof -
  have d: "distinct (map fst (count_table xs))"
    by (simp add: count_table_keys distinct_first_seen)
  show ?thesis
    using map_of_eq_Some_iff [OF d, of k n] by (auto simp: count_table_map_of split: if_splits)
qed

lemma length_dropna: "length (dropna (map c v)) = length (filter (\<lambda>r. c r \<noteq> None) v)"
  by (induction v) (auto simp: dropna_def List.map_filter_simps split: option.splits)

lemma set_dropna: "set (dropna s) = {k. Some k \<in> set s}"
  by (induction s) (auto simp: dropna_def List.map_filter_simps split: option.splits)

lemma count_list_dropna:
  "count_list (dropna (map c v)) k = length (filter (\<lambda>r. c r = Some k) v)"
  by (induction v) (auto simp: dropna_def List.map_filter_simps split: option.splits)

lemma count_table_distinct: "distinct (count_table xs)"
proof -
  have "distinct (map fst (count_table xs))"
    by (simp add: count_table_keys distinct_first_seen)
  then show ?thesis by (simp add: distinct_map)
qed

lemma count_table_length: "length (count_table xs) = card (set xs)"
proof -
  have "length (count_table xs) = length (map fst (count_table xs))"
    by simp
  also have "\<dots> = card (set xs)"
    by (simp only: count_table_keys) (metis distinct_card distinct_first_seen set_first_seen)
  finally show ?thesis .
qed

lemma sorted_table_sum:
  assumes s: "sorts_by_count srt t" and d: "distinct t"
  shows "sum_list (map snd (srt t)) = sum_list (map snd t)"
proof -
  from s have e: "set (srt t) = set t" and l: "length (srt t) = length t"
    by (simp_all add: sorts_by_count_def)
  have "card (set (srt t)) = length (srt t)"
    using d e l by (simp add: distinct_card)
  then have "distinct (srt t)"
    by (rule card_distinct)
  then have "sum_list (map snd (srt t)) = sum snd (set (srt t))"
    by (rule sum_list_distinct_conv_sum_set)
  also have "\<dots> = sum snd (set t)"
    by (simp only: e)
  also have "\<dots> = sum_list (map snd t)"
    using d by (rule sum_list_distinct_conv_sum_set [symmetric])
  finally show ?thesis .
qed

lemma value_counts_entry:
  assumes "sorts_by_count srt (count_table (dropna (col c v)))"
  shows "(k, m) \<in> set (value_counts srt (col c v)) \<longleftrightarrow>
     Some k \<in> set (col c v) \<and> m = length (filter (\<lambda>r. c r = Some k) v)"
proof -
  have "set (value_counts srt (col c v)) = set (count_table (dropna (col c v)))"
    using assms by (simp add: sorts_by_count_def value_counts_def)
  then show ?thesis
    by (simp add: count_table_entry set_dropna) (simp add: col_def count_list_dropna)
qed

lemma value_counts_sum:
  assumes "sorts_by_count srt (count_table (dropna (col c v)))"
  shows "sum_list (map snd (value_counts srt (col c v))) = length (filter (\<lambda>r. c r \<noteq> None) v)"
proof -
  have "sum_list (map snd (value_counts srt (col c v))) =
      sum_list (map snd (count_table (dropna (col c v))))"
    unfolding value_counts_def by (rule sorted_table_sum [OF assms count_table_distinct])
  then show ?thesis
    by (simp add: count_table_sum col_def length_dropna)
qed

lemma value_counts_length:
  assumes "sorts_by_count srt (count_table (dropna s))"
  shows "length (value_counts srt s) = card {k. Some k \<in> set s}"
  using assms by (simp add: sorts_by_count_def value_counts_def count_table_length set_dropna)

text \<open>
  C5, as the specification has it, fails in two parts. The view is a table of six rows
  under the widest range of ages; one row has no diploma. The counts sum to 5 and not to
  the 6 rows of the view. And the order of entries of equal count is that of the sort: the
  diplomas \<open>L\<close> and \<open>M\<close> both count 2 and \<open>L\<close> is met first, yet under a sort by descending
  count that turns ties round \<open>M\<close> comes before \<open>L\<close>.
\<close>

theorem value_counts_skip_missing:
  "diploma_view = diploma_rows \<and>
   nb_rep diploma_view = 6 \<and>
   sum_list (map snd (value_counts ties_kept (col Diplome diploma_view))) = 5 \<and>
   sum_list (map snd (value_counts ties_reversed (col Diplome diploma_view))) = 5 \<and>
   first_seen (dropna (col Diplome diploma_view)) = [lit ''L'', lit ''M'', lit ''D''] \<and>
   sorts_by_count ties_reversed (count_table (dropna (col Diplome diploma_view))) \<and>
   value_counts ties_reversed (col Diplome diploma_view) =
     [(lit ''M'', 2), (lit ''L'', 2), (lit ''D'', 1)]"
proof -
  have v: "diploma_view = diploma_rows"
    by (simp add: diploma_view_def dff_filter satisfies_def satisfies_on_def filter_columns_def
        age_in_range_def diploma_rows_def blank_def no_filter_def)
  have t: "count_table (dropna (col Diplome diploma_rows)) =
      [(lit ''L'', 2), (lit ''M'', 2), (lit ''D'', 1)]"
    by (simp add: count_table_def dropna_def col_def diploma_rows_def blank_def lit_def)
  have f: "first_seen (dropna (col Diplome diploma_rows)) = [lit ''L'', lit ''M'', lit ''D'']"
    by (simp add: first_seen_def dropna_def col_def diploma_rows_def blank_def lit_def)
  have n: "nb_rep diploma_rows = 6"
    by (simp add: nb_rep_def diploma_rows_def)
  have k: "ties_kept [(lit ''L'', 2), (lit ''M'', 2), (lit ''D'', 1::nat)] =
      [(lit ''L'', 2), (lit ''M'', 2), (lit ''D'', 1)]"
    by (simp add: ties_kept_def lit_def)
  have r: "ties_reversed [(lit ''L'', 2), (lit ''M'', 2), (lit ''D'', 1::nat)] =
      [(lit ''M'', 2), (lit ''L'', 2), (lit ''D'', 1)]"
    by (simp add: ties_reversed_def lit_def)
  have s: "sorts_by_count ties_reversed [(lit ''L'', 2), (lit ''M'', 2), (lit ''D'', 1::nat)]"
    unfolding sorts_by_count_def r by (auto simp: lit_def)
  show ?thesis
    unfolding v value_counts_def t f using n k r s by simp
qed

text \<open>
  C5, amended. For every view and categorical column, whatever order the sort by
  descending count leaves among entries of equal count: the counts of \<open>value_counts\<close> sum
  to the number of rows whose cell is present (missing cells are not counted); there is
  an entry for each distinct present value, with the number of rows that hold it; the
  entries come by descending count; and the top \<open>n\<close> is a prefix of \<open>value_counts\<close> of
  length the minimum of \<open>n\<close> and the number of distinct present values.
\<close>

theorem value_counts_top_n:
  "sorts_by_count srt (count_table (dropna (col c v))) \<Longrightarrow>
   sum_list (map snd (value_counts srt (col c v))) = length (filter (\<lambda>r. c r \<noteq> None) v) \<and>
   (\<forall>k m. (k, m) \<in> set (value_counts srt (col c v)) \<longleftrightarrow>
      Some k \<in> set (col c v) \<and> m = length (filter (\<lambda>r. c r = Some k) v)) \<and>
   sorted_wrt (\<lambda>p q. snd q \<le> snd p) (value_counts srt (col c v)) \<and>
   prefix (top_n srt n c v) (value_counts srt (col c v)) \<and>
   length (top_n srt n c v) = min n (card {k. Some k \<in> set (col c v)})"
proof -
  assume a: "sorts_by_count srt (count_table (dropna (col c v)))"
  have p: "prefix (top_n srt n c v) (value_counts srt (col c v))"
    by (simp add: top_n_def head_def take_is_prefix)
  have l: "length (top_n srt n c v) = min n (card {k. Some k \<in> set (col c v)})"
    by (simp add: top_n_def head_def value_counts_length [OF a] min.commute)
  have o: "sorted_wrt (\<lambda>p q. snd q \<le> snd p) (value_counts srt (col c v))"
    using a by (simp add: sorts_by_count_def value_counts_def)
  have e: "\<forall>k m. (k, m) \<in> set (value_counts srt (col c v)) \<longleftrightarrow>
      Some k \<in> set (col c v) \<and> m = length (filter (\<lambda>r. c r = Some k) v)"
    by (intro allI) (rule value_counts_entry [OF a])
  show ?thesis
    by (intro conjI value_counts_sum [OF a] e o p l)
qed

theorem value_counts_top_n_witness:
  "value_counts ties_kept (col Diplome diploma_view) =
     [(lit ''L'', 2), (lit ''M'', 2), (lit ''D'', 1)] \<and>
   top_n ties_kept 2 Diplome diploma_view = [(lit ''L'', 2), (lit ''M'', 2)] \<and>
   length (filter (\<lambda>r. Diplome r \<noteq> None) diploma_view) = 5 \<and>
   sum_list (map snd (value_counts ties_kept (col Diplome diploma_view))) = 5 \<and>
   length (top_n ties_kept 2 Diplome diploma_view) = 2"
proof -
  have v: "diploma_view = diploma_rows"
    by (simp add: diploma_view_def dff_filter satisfies_def satisfies_on_def filter_columns_def
        age_in_range_def diploma_rows_def blank_def no_filter_def)
  have t: "count_table (dropna (col Diplome diploma_view)) =
      [(lit ''L'', 2), (lit ''M'', 2), (lit ''D'', 1)]"
    unfolding v by (simp add: count_table_def dropna_def col_def diploma_rows_def blank_def lit_def)
  have k: "ties_kept [(lit ''L'', 2), (lit ''M'', 2), (lit ''D'', 1::nat)] =
      [(lit ''L'', 2), (lit ''M'', 2), (lit ''D'', 1)]"
    by (simp add: ties_kept_def lit_def)
  have h: "sorts_by_count ties_kept (count_table (dropna (col Diplome diploma_view)))"
    unfolding t sorts_by_count_def k by simp
  have a: "value_counts ties_kept (col Diplome diploma_view) =
      [(lit ''L'', 2), (lit ''M'', 2), (lit ''D'', 1)]"
    unfolding value_counts_def t by (rule k)
  have b: "top_n ties_kept 2 Diplome diploma_view = [(lit ''L'', 2), (lit ''M'', 2)]"
    by (simp add: top_n_def head_def a)
  have d: "length (filter (\<lambda>r. Diplome r \<noteq> None) diploma_view) = 5"
    unfolding v by (simp add: diploma_rows_def blank_def)
  note T = value_counts_top_n [OF h, of 2]
  have "sum_list (map snd (value_counts ties_kept (col Diplome diploma_view))) =
      length (filter (\<lambda>r. Diplome r \<noteq> None) diploma_view)"
    by (rule T [THEN conjunct1])
  then have e: "sum_list (map snd (value_counts ties_kept (col Diplome diploma_view))) = 5"
    by (simp only: d)
  have g: "length (top_n ties_kept 2 Diplome diploma_view) = 2"
    by (simp add: b)
  from a b d e g show ?thesis by (simp only: simp_thms)
qed

section \<open>Cross-tabulation: results\<close>

lemma both_present_col:
  "both_present (col a v) (col b v) =
     List.map_filter (\<lambda>r. case a r of None \<Rightarrow> None | Some x \<Rightarrow> map_option (Pair x) (b r)) v"
  by (induction v) (auto simp: both_present_def col_def List.map_filter_simps split: option.splits)

lemma in_both_present:
  "(x, y) \<in> set (both_present (col a v) (col b v)) \<longleftrightarrow>
     (\<exists>r \<in> set v. a r = Some x \<and> b r = Some y)"
  unfolding both_present_col
  by (induction v) (auto simp: List.map_filter_simps split: option.splits)

lemma in_fst_image: "x \<in> fst ` S \<longleftrightarrow> (\<exists>y. (x, y) \<in> S)"
  by force

lemma in_snd_image: "y \<in> snd ` S \<longleftrightarrow> (\<exists>x. (x, y) \<in> S)"
  by force

lemma count_both_present:
  "count_list (both_present (col a v) (col b v)) (x, y) =
     length (filter (\<lambda>r. a r = Some x \<and> b r = Some y) v)"
  unfolding both_present_col
  by (induction v) (auto simp: List.map_filter_simps split: option.splits)

lemma grouped_cell:
  "(case map_of (count_table ps) p of None \<Rightarrow> 0 | Some n \<Rightarrow> n) = count_list ps p"
  by (simp add: count_table_map_of count_list_0_iff)

lemma map_nth_fun: "map (\<lambda>i. g (xs ! i)) [0..<length xs] = map g xs"
  by (rule nth_equalityI) simp_all

lemma melt_crosstab:
  "melt (crosstab s1 s2) =
     concat (map (\<lambda>y. map (\<lambda>x. (x, y, count_list (both_present s1 s2) (x, y)))
                    (row_labels (crosstab s1 s2))) (col_labels (crosstab s1 s2)))"
proof -
  let ?t = "crosstab s1 s2"
  let ?f = "\<lambda>x y. count_list (both_present s1 s2) (x, y)"
  have c: "cells ?t = map (\<lambda>x. map (\<lambda>y. ?f x y) (col_labels ?t)) (row_labels ?t)"
    by (simp add: crosstab_def Let_def grouped_cell)
  have "melt ?t = concat (map (\<lambda>j. map (\<lambda>i. (row_labels ?t ! i, col_labels ?t ! j,
        ?f (row_labels ?t ! i) (col_labels ?t ! j))) [0..<length (row_labels ?t)])
        [0..<length (col_labels ?t)])"
    unfolding melt_def c by (intro arg_cong [where f = concat] map_cong refl) simp_all
  also have "\<dots> = concat (map (\<lambda>j. map (\<lambda>x. (x, col_labels ?t ! j, ?f x (col_labels ?t ! j)))
        (row_labels ?t)) [0..<length (col_labels ?t)])"
    by (simp only: map_nth_fun [where g = "\<lambda>x. (x, col_labels ?t ! j, ?f x (col_labels ?t ! j))" for j])
  also have "\<dots> = concat (map (\<lambda>y. map (\<lambda>x. (x, y, ?f x y)) (row_labels ?t)) (col_labels ?t))"
    by (simp only: map_nth_fun [where g = "\<lambda>y. map (\<lambda>x. (x, y, ?f x y)) (row_labels ?t)"])
  finally show ?thesis .
qed

lemma crosstab_row_labels:
  "set (row_labels (crosstab (col a v) (col b v))) = {x. \<exists>r \<in> set v. a r = Some x \<and> b r \<noteq> None}"
proof -
  have "set (row_labels (crosstab (col a v) (col b v))) = fst ` set (both_present (col a v) (col b v))"
    by (simp add: crosstab_def Let_def)
  moreover have "x \<in> fst ` set (both_present (col a v) (col b v)) \<longleftrightarrow>
      (\<exists>r \<in> set v. a r = Some x \<and> b r \<noteq> None)" for x
    unfolding in_fst_image in_both_present by blast
  ultimately show ?thesis by blast
qed

lemma crosstab_col_labels:
  "set (col_labels (crosstab (col a v) (col b v))) = {y. \<exists>r \<in> set v. b r = Some y \<and> a r \<noteq> None}"
proof -
  have "set (col_labels (crosstab (col a v) (col b v))) = snd ` set (both_present (col a v) (col b v))"
    by (simp add: crosstab_def Let_def)
  moreover have "y \<in> snd ` set (both_present (col a v) (col b v)) \<longleftrightarrow>
      (\<exists>r \<in> set v. b r = Some y \<and> a r \<noteq> None)" for y
    unfolding in_snd_image in_both_present by blast
  ultimately show ?thesis by blast
qed

lemma crosstab_distinct:
  "distinct (row_labels (crosstab s1 s2)) \<and> distinct (col_labels (crosstab s1 s2))"
  by (simp add: crosstab_def Let_def)

lemma melt_entry:
  "(x, y, n) \<in> set (melt (crosstab (col a v) (col b v))) \<longleftrightarrow>
     x \<in> set (row_labels (crosstab (col a v) (col b v))) \<and>
     y \<in> set (col_labels (crosstab (col a v) (col b v))) \<and>
     n = length (filter (\<lambda>r. a r = Some x \<and> b r = Some y) v)"
  by (auto simp: melt_crosstab count_both_present)

lemma melt_length:
  "length (melt (crosstab s1 s2)) =
     length (row_labels (crosstab s1 s2)) * length (col_labels (crosstab s1 s2))"
  by (simp add: melt_crosstab length_concat comp_def sum_list_triv)

text \<open>
  C7, as the specification has it, fails where cells are missing: in a view of two rows,
  the second with difficulty \<open>B\<close> and no diploma, \<open>B\<close> is a value found in the first column and
  yet the table has no row for it.
\<close>

theorem crosstab_drops_half_missing:
  "Some (lit ''B'') \<in> set (col Q3_Difficulte lone_rows) \<and>
   lit ''B'' \<notin> set (row_labels (ct lone_rows))"
  by (simp add: ct_def crosstab_def both_present_def count_table_def col_def lone_rows_def
      blank_def lit_def)

text \<open>
  C7, amended. For every view and every pair of categorical columns, the cross-tabulation
  has one row per distinct value that the first column takes in rows where the second is
  present too, and one column per distinct value that the second takes in rows where the
  first is present; its long form has exactly one record for every pair of a row label
  and a column label, with the number of rows of the view that hold both; a pair of
  labels that no row holds together has a record with count 0.
\<close>

theorem crosstab_cells:
  "set (row_labels (crosstab (col a v) (col b v))) =
     {x. \<exists>r \<in> set v. a r = Some x \<and> b r \<noteq> None} \<and>
   set (col_labels (crosstab (col a v) (col b v))) =
     {y. \<exists>r \<in> set v. b r = Some y \<and> a r \<noteq> None} \<and>
   distinct (row_labels (crosstab (col a v) (col b v))) \<and>
   distinct (col_labels (crosstab (col a v) (col b v))) \<and>
   length (melt (crosstab (col a v) (col b v))) =
     length (row_labels (crosstab (col a v) (col b v))) *
     length (col_labels (crosstab (col a v) (col b v))) \<and>
   (\<forall>x y n. (x, y, n) \<in> set (melt (crosstab (col a v) (col b v))) \<longleftrightarrow>
      x \<in> set (row_labels (crosstab (col a v) (col b v))) \<and>
      y \<in> set (col_labels (crosstab (col a v) (col b v))) \<and>
      n = length (filter (\<lambda>r. a r = Some x \<and> b r = Some y) v)) \<and>
   (\<forall>x y. x \<in> set (row_labels (crosstab (col a v) (col b v))) \<longrightarrow>
      y \<in> set (col_labels (crosstab (col a v) (col b v))) \<longrightarrow>
      \<not> (\<exists>r \<in> set v. a r = Some x \<and> b r = Some y) \<longrightarrow>
      (x, y, 0) \<in> set (melt (crosstab (col a v) (col b v))))"
proof -
  have z: "(x, y, 0) \<in> set (melt (crosstab (col a v) (col b v)))"
    if "x \<in> set (row_labels (crosstab (col a v) (col b v)))"
      and "y \<in> set (col_labels (crosstab (col a v) (col b v)))"
      and "\<not> (\<exists>r \<in> set v. a r = Some x \<and> b r = Some y)" for x y
  proof -
    have "filter (\<lambda>r. a r = Some x \<and> b r = Some y) v = []"
      using that(3) by (simp add: filter_empty_conv)
    then show ?thesis
      using that(1,2) by (simp add: melt_entry)
  qed
  have e: "\<forall>x y n. (x, y, n) \<in> set (melt (crosstab (col a v) (col b v))) \<longleftrightarrow>
      x \<in> set (row_labels (crosstab (col a v) (col b v))) \<and>
      y \<in> set (col_labels (crosstab (col a v) (col b v))) \<and>
      n = length (filter (\<lambda>r. a r = Some x \<and> b r = Some y) v)"
    by (intro allI) (rule melt_entry)
  have z': "\<forall>x y. x \<in> set (row_labels (crosstab (col a v) (col b v))) \<longrightarrow>
      y \<in> set (col_labels (crosstab (col a v) (col b v))) \<longrightarrow>
      \<not> (\<exists>r \<in> set v. a r = Some x \<and> b r = Some y) \<longrightarrow>
      (x, y, 0) \<in> set (melt (crosstab (col a v) (col b v)))"
    by (intro allI impI) (rule z)
  show ?thesis
    by (intro conjI crosstab_row_labels crosstab_col_labels melt_length e z'
        conjunct1 [OF crosstab_distinct] conjunct2 [OF crosstab_distinct])
qed

theorem crosstab_cells_witness:
  "row_labels (ct cross_rows) = [lit ''A'', lit ''B''] \<and>
   col_labels (ct cross_rows) = [lit ''X'', lit ''Y''] \<and>
   filter (\<lambda>r. Q3_Difficulte r = Some (lit ''B'') \<and> Diplome r = Some (lit ''Y'')) cross_rows = [] \<and>
   (lit ''B'', lit ''Y'', 0) \<in> set (melt (ct cross_rows))"
proof -
  have a: "row_labels (ct cross_rows) = [lit ''A'', lit ''B'']"
    by (simp add: ct_def crosstab_def both_present_def count_table_def col_def cross_rows_def
        blank_def lit_def)
  have b: "col_labels (ct cross_rows) = [lit ''X'', lit ''Y'']"
    by (simp add: ct_def crosstab_def both_present_def count_table_def col_def cross_rows_def
        blank_def lit_def)
  have f: "filter (\<lambda>r. Q3_Difficulte r = Some (lit ''B'') \<and> Diplome r = Some (lit ''Y'')) cross_rows = []"
    by (simp add: cross_rows_def blank_def lit_def)
  then have c: "\<not> (\<exists>r \<in> set cross_rows. Q3_Difficulte r = Some (lit ''B'') \<and> Diplome r = Some (lit ''Y''))"
    by (simp only: filter_empty_conv) blast
  have "(lit ''B'', lit ''Y'', 0) \<in> set (melt (ct cross_rows))"
    using crosstab_cells [of Q3_Difficulte cross_rows Diplome] a b c
    unfolding ct_def by simp
  with a b f show ?thesis by (simp only: simp_thms)
qed

section \<open>Keyword extraction: results\<close>

lemma count_word_fold:
  "fold (count_word n) ws c = fold incr (filter (kept n) ws) c"
  by (induction ws arbitrary: c) (simp_all add: count_word_def kept_def)

lemma count_text_fold:
  "count_text U n t c = fold incr (filter (kept n) (tokens U t)) c"
  by (simp add: count_text_def tokens_def count_word_fold)

lemma fold_count_text:
  "fold (count_text U n) ts c = fold incr (filter (kept n) (concat (map (tokens U) ts))) c"
  by (induction ts arbitrary: c) (simp_all add: count_text_fold)

lemma extract_keywords_table:
  "extract_keywords U series n =
     count_table (filter (kept n) (concat (map (tokens U) (dropna series))))"
  by (simp add: extract_keywords_def fold_count_text count_table_def)

lemma split_from_chars:
  "w \<in> set (split_from sp cur s) \<Longrightarrow> c \<in> set w \<Longrightarrow> c \<in> set cur \<or> (c \<in> set s \<and> \<not> sp c)"
proof (induction s arbitrary: cur)
  case Nil
  then show ?case by (simp split: if_splits)
next
  case (Cons a s)
  show ?case
  proof (cases "sp a")
    case True
    then have "w = cur \<or> w \<in> set (split_from sp [] s)"
      using Cons.prems(1) by (auto split: if_splits)
    then show ?thesis
    proof
      assume "w = cur"
      then show ?thesis using Cons.prems(2) by simp
    next
      assume "w \<in> set (split_from sp [] s)"
      from Cons.IH [OF this Cons.prems(2)] show ?thesis by simp
    qed
  next
    case False
    then have "w \<in> set (split_from sp (cur @ [a]) s)"
      using Cons.prems(1) by simp
    from Cons.IH [OF this Cons.prems(2)] show ?thesis using False by auto
  qed
qed

lemma token_chars:
  assumes sp: "is_space U 32" and w: "w \<in> set (tokens U t)" and c: "c \<in> set w"
  shows "is_word U c"
proof -
  have "c \<in> set (normalise U t) \<and> \<not> is_space U c"
    using split_from_chars [of w "is_space U" "[]" "normalise U t" c] w c
    by (simp add: tokens_def str_split_def)
  then show ?thesis
    using sp by (auto simp: normalise_def str_replace_def re_sub_def split: if_splits)
qed

lemma split_from_map:
  assumes "\<And>c. \<not> sp (f c) \<Longrightarrow> f c = c"
  shows "split_from sp cur (map f s) = split_from (\<lambda>c. sp (f c)) cur s"
proof (induction s arbitrary: cur)
  case Nil
  show ?case by simp
next
  case (Cons a s)
  show ?case
  proof (cases "sp (f a)")
    case True
    then show ?thesis by (simp add: Cons.IH)
  next
    case False
    then have "f a = a" by (rule assms)
    with False show ?thesis by (simp add: Cons.IH)
  qed
qed

lemma normalise_map:
  "normalise U t =
     map (\<lambda>c. if (if (if is_word U c \<or> is_space U c then c else 32) = 8217 then 32
                     else (if is_word U c \<or> is_space U c then c else 32)) = 39 then 32
                else (if (if is_word U c \<or> is_space U c then c else 32) = 8217 then 32
                     else (if is_word U c \<or> is_space U c then c else 32)))
       (str_lower U t)"
  by (simp add: normalise_def str_replace_def re_sub_def comp_def)

lemma tokens_runs:
  assumes sp: "is_space U 32"
  shows "tokens U t = split_from (separator U) [] (str_lower U t)"
proof -
  let ?b = "\<lambda>c. if is_word U c \<or> is_space U c then c else (32::nat)"
  let ?f = "\<lambda>c. if (if ?b c = 8217 then 32 else ?b c) = 39 then 32
                else (if ?b c = 8217 then 32 else ?b c)"
  have fx: "?f c = c" if "\<not> is_space U (?f c)" for c
    using that sp by (auto split: if_splits)
  have sep: "is_space U (?f c) = separator U c" for c
    using sp by (auto simp: separator_def)
  have "tokens U t = split_from (is_space U) [] (map ?f (str_lower U t))"
    by (simp only: tokens_def str_split_def normalise_map)
  also have "\<dots> = split_from (\<lambda>c. is_space U (?f c)) [] (str_lower U t)"
    by (rule split_from_map) (rule fx)
  also have "\<dots> = split_from (separator U) [] (str_lower U t)"
    by (simp only: sep)
  finally show ?thesis .
qed

lemma count_list_filter:
  "count_list (filter P xs) w = (if P w then count_list xs w else 0)"
  by (induction xs) auto

lemma extract_keywords_entry:
  "(w, k) \<in> set (extract_keywords U series n) \<longleftrightarrow>
     kept n w \<and> w \<in> set (concat (map (tokens U) (dropna series))) \<and>
     k = count_list (concat (map (tokens U) (dropna series))) w"
  by (auto simp: extract_keywords_table count_table_entry count_list_filter)

lemma tokens_lower_cong:
  "str_lower U t1 = str_lower U t2 \<Longrightarrow> tokens U t1 = tokens U t2"
  by (simp add: tokens_def normalise_def)

lemma dropna_append: "dropna (xs @ ys) = dropna xs @ dropna ys"
  by (simp add: dropna_def List.map_filter_def)

lemma dropna_Some: "dropna (Some x # xs) = x # dropna xs"
  by (simp add: dropna_def List.map_filter_simps)

text \<open>
  C6, as the specification has it, fails for the underscore: it is punctuation, neither
  alphanumeric nor whitespace, but it belongs to \<open>\w\<close>, so the program keeps it inside
  words. In a view of three rows whose texts are \<open>Emploi_\<close>, \<open>emploi\<close> and \<open>de_la\<close>, the
  program counts the three keys \<open>emploi_\<close>, \<open>emploi\<close> and \<open>de_la\<close> once each, where an
  extraction that blanks all punctuation counts \<open>emploi\<close> twice and nothing else.
\<close>

theorem extract_keywords_keeps_underscore:
  "dff keyword_rows (no_filter (22, 24)) = keyword_rows \<and>
   extract_keywords ascii (col Q1_Domaine (dff keyword_rows (no_filter (22, 24)))) 3 =
     [(lit ''emploi_'', 1), (lit ''emploi'', 1), (lit ''de_la'', 1)] \<and>
   spec_keywords ascii (col Q1_Domaine (dff keyword_rows (no_filter (22, 24)))) 3 =
     [(lit ''emploi'', 2)] \<and>
   extract_keywords ascii (col Q1_Domaine (dff keyword_rows (no_filter (22, 24)))) 3 \<noteq>
     spec_keywords ascii (col Q1_Domaine (dff keyword_rows (no_filter (22, 24)))) 3"
proof -
  have v: "dff keyword_rows (no_filter (22, 24)) = keyword_rows"
    by (simp add: dff_filter satisfies_def satisfies_on_def filter_columns_def
        age_in_range_def keyword_rows_def blank_def no_filter_def)
  have a: "extract_keywords ascii (col Q1_Domaine keyword_rows) 3 =
      [(lit ''emploi_'', 1), (lit ''emploi'', 1), (lit ''de_la'', 1)]"
    by (simp add: extract_keywords_def count_text_def count_word_def str_split_def
        normalise_def str_replace_def re_sub_def dropna_def col_def stop_words_def ascii_def
        keyword_rows_def blank_def lit_def)
  have b: "spec_keywords ascii (col Q1_Domaine keyword_rows) 3 = [(lit ''emploi'', 2)]"
    by (simp add: spec_keywords_def spec_tokens_def count_table_def kept_def str_split_def
        dropna_def col_def stop_words_def ascii_def keyword_rows_def blank_def lit_def)
  show ?thesis
    unfolding v a b by (simp add: lit_def)
qed

text \<open>
  C6, amended. Keyword extraction is insensitive to case and to punctuation other than the
  underscore: the result is the table of counts of the kept words of all present texts, a
  text counts only through its lower-case form, and its words are the maximal runs of
  that form free of separators, where every character outside \<open>\w\<close> (and each of the two
  apostrophes) separates exactly as whitespace does; so \<open>Emploi!\<close> and \<open>emploi\<close> count for
  the same word. The underscore belongs to \<open>\w\<close> and stays in keys. No key is shorter than
  the minimum length, no key is a stop word, and a key is made of characters of \<open>\w\<close>
  only. (The run and word-character statements take the space character to be
  whitespace, as it is in Python.)
\<close>

theorem extract_keywords_normalised:
  "(\<forall>w k. (w, k) \<in> set (extract_keywords U series n) \<longrightarrow>
      n \<le> int (length w) \<and> w \<notin> set stop_words \<and>
      k = count_list (concat (map (tokens U) (dropna series))) w \<and> 0 < k \<and>
      (is_space U 32 \<longrightarrow> (\<forall>c \<in> set w. is_word U c))) \<and>
   (is_space U 32 \<longrightarrow>
      extract_keywords U series n =
        count_table (filter (kept n)
          (concat (map (\<lambda>t. split_from (separator U) [] (str_lower U t)) (dropna series))))) \<and>
   (str_lower U t1 = str_lower U t2 \<longrightarrow>
      extract_keywords U (pre @ Some t1 # post) n = extract_keywords U (pre @ Some t2 # post) n) \<and>
   extract_keywords ascii [Some (lit ''Emploi!''), Some (lit ''emploi'')] 3 = [(lit ''emploi'', 2)] \<and>
   extract_keywords ascii [Some (lit ''Emploi!'')] 3 = extract_keywords ascii [Some (lit ''emploi'')] 3"
proof (intro conjI allI impI)
  fix w k
  assume e: "(w, k) \<in> set (extract_keywords U series n)"
  let ?all = "concat (map (tokens U) (dropna series))"
  from e have kw: "kept n w" and inw: "w \<in> set ?all" and k: "k = count_list ?all w"
    by (simp_all add: extract_keywords_entry)
  show "n \<le> int (length w)" using kw by (simp add: kept_def)
  show "w \<notin> set stop_words" using kw by (simp add: kept_def)
  show "k = count_list ?all w" by (rule k)
  have "count_list ?all w \<noteq> 0" using inw by (simp only: count_list_0_iff not_not)
  then show "0 < k" using k by simp
  show "\<forall>c \<in> set w. is_word U c" if sp: "is_space U 32"
  proof
    fix c
    assume c: "c \<in> set w"
    from inw obtain t where "w \<in> set (tokens U t)" by auto
    from sp this c show "is_word U c" by (rule token_chars)
  qed
next
  assume "is_space U 32"
  then have "tokens U = (\<lambda>t. split_from (separator U) [] (str_lower U t))"
    by (intro ext tokens_runs)
  then show "extract_keywords U series n =
      count_table (filter (kept n)
        (concat (map (\<lambda>t. split_from (separator U) [] (str_lower U t)) (dropna series))))"
    by (simp add: extract_keywords_table)
next
  assume "str_lower U t1 = str_lower U t2"
  then have "tokens U t1 = tokens U t2" by (rule tokens_lower_cong)
  then show "extract_keywords U (pre @ Some t1 # post) n = extract_keywords U (pre @ Some t2 # post) n"
    by (simp add: extract_keywords_table dropna_append dropna_Some)
next
  show "extract_keywords ascii [Some (lit ''Emploi!''), Some (lit ''emploi'')] 3 = [(lit ''emploi'', 2)]"
    by (simp add: extract_keywords_def count_text_def count_word_def str_split_def
        normalise_def str_replace_def re_sub_def dropna_def stop_words_def ascii_def lit_def)
  show "extract_keywords ascii [Some (lit ''Emploi!'')] 3 = extract_keywords ascii [Some (lit ''emploi'')] 3"
    by (simp add: extract_keywords_def count_text_def count_word_def str_split_def
        normalise_def str_replace_def re_sub_def dropna_def stop_words_def ascii_def lit_def)
qed

theorem extract_keywords_normalised_witness:
  "is_space ascii 32 \<and>
   str_lower ascii (lit ''EMPLOI'') = str_lower ascii (lit ''emploi'') \<and>
   extract_keywords ascii [Some (lit ''EMPLOI'')] 3 = extract_keywords ascii [Some (lit ''emploi'')] 3 \<and>
   (lit ''emploi'', 2) \<in> set (extract_keywords ascii [Some (lit ''Emploi!''), Some (lit ''emploi'')] 3) \<and>
   (3::int) \<le> int (length (lit ''emploi'')) \<and> lit ''emploi'' \<notin> set stop_words \<and>
   list_all (is_word ascii) (lit ''emploi'')"
proof -
  note T = extract_keywords_normalised [of ascii "[Some (lit ''Emploi!''), Some (lit ''emploi'')]" 3
      "lit ''EMPLOI''" "lit ''emploi''" "[]" "[]"]
  have sp: "is_space ascii 32"
    by (simp add: ascii_def)
  have lo: "str_lower ascii (lit ''EMPLOI'') = str_lower ascii (lit ''emploi'')"
    by (simp add: ascii_def lit_def)
  have ex: "extract_keywords ascii [Some (lit ''Emploi!''), Some (lit ''emploi'')] 3 = [(lit ''emploi'', 2)]"
    by (rule T [THEN conjunct2, THEN conjunct2, THEN conjunct2, THEN conjunct1])
  have mem: "(lit ''emploi'', 2) \<in> set (extract_keywords ascii [Some (lit ''Emploi!''), Some (lit ''emploi'')] 3)"
    by (simp add: ex)
  note K = T [THEN conjunct1, rule_format, OF mem]
  have a: "(3::int) \<le> int (length (lit ''emploi''))"
    by (rule K [THEN conjunct1])
  have b: "lit ''emploi'' \<notin> set stop_words"
    by (rule K [THEN conjunct2, THEN conjunct1])
  have "\<forall>c \<in> set (lit ''emploi''). is_word ascii c"
    by (rule K [THEN conjunct2, THEN conjunct2, THEN conjunct2, THEN conjunct2, THEN mp, OF sp])
  then have c: "list_all (is_word ascii) (lit ''emploi'')"
    by (simp only: list_all_iff)
  have "extract_keywords ascii ([] @ Some (lit ''EMPLOI'') # []) 3 =
      extract_keywords ascii ([] @ Some (lit ''emploi'') # []) 3"
    by (rule T [THEN conjunct2, THEN conjunct2, THEN conjunct1, rule_format, OF lo])
  then have d: "extract_keywords ascii [Some (lit ''EMPLOI'')] 3 = extract_keywords ascii [Some (lit ''emploi'')] 3"
    by simp
  from sp lo d mem a b c show ?thesis by (simp only: simp_thms)
qed

section \<open>Adding an answer: results\<close>

lemma append_answer_rows:
  "append_answer (Csv base) df a = Inr new \<Longrightarrow>
     \<exists>i t. auto_id df = Inr i \<and> new = Csv t \<and> rows t = rows base @ [new_row i a] \<and>
       length (rows t) = length (rows base) + 1 \<and> take (length (rows base)) (rows t) = rows base \<and>
       ID (last (rows t)) = Some i"
  by (auto simp: append_answer_def concat_row_def new_row_def split: sum.splits)

lemma append_answer_fresh:
  "lit ''ID'' \<in> set (columns base) \<Longrightarrow> series_max (col ID (rows base)) = Some k \<Longrightarrow>
     append_answer (Csv base) base a = Inr (Csv (concat_row base (new_row (k + 1) a)))"
  by (simp add: append_answer_def auto_id_def)

text \<open>
  C8 at an input where the program departs from it. The file holds three rows with the
  identifiers 1, 2 and 3, so its largest identifier is 3 and the new row should get 4
  (the first line, where the dataset in memory is the file as it stands). The session's
  dataset still holds the first two rows only: the loader keeps a table for sixty seconds,
  and an uploaded table is never the file. Line 388 takes the identifier from that
  dataset, so the row that is appended to the three rows of the file has the identifier 3,
  which the third row of the file already has. The count of rows grows by one and the
  three rows are kept.
\<close>

theorem append_reuses_stale_id:
  "auto_id \<lparr>columns = new_row_columns, rows = three_rows\<rparr> = Inr 4 \<and>
   auto_id \<lparr>columns = new_row_columns, rows = take 2 three_rows\<rparr> = Inr 3 \<and>
   append_answer (Csv \<lparr>columns = new_row_columns, rows = three_rows\<rparr>)
       \<lparr>columns = new_row_columns, rows = take 2 three_rows\<rparr> sample_answer =
     Inr (Csv \<lparr>columns = new_row_columns, rows = three_rows @ [new_row 3 sample_answer]\<rparr>) \<and>
   ID (new_row 3 sample_answer) = ID (three_rows ! 2)"
  by (simp add: append_answer_def auto_id_def series_max_def dropna_def col_def concat_row_def
      new_row_def new_row_columns_def three_rows_def blank_def lit_def)

section \<open>Export and reload: results\<close>

lemma read_column_numbers:
  assumes na: "is_na C []" and rb: "list_all (reads_back C) cs"
    and nt: "list_all (\<lambda>c. \<not> is_text c) cs"
  shows "read_column C (map (write_cell C) cs) = cs"
proof -
  have r: "reads_back C c" and t: "\<not> is_text c" if "c \<in> set cs" for c
    using that rb nt by (simp_all add: list_all_iff)
  have ok: "is_na C (write_cell C c) \<or> read_num C (write_cell C c) \<noteq> None" if "c \<in> set cs" for c
    using na r [OF that] t [OF that]
    by (cases c) (simp_all add: write_cell_def reads_back_def is_text_def)
  have same: "(if is_na C (write_cell C c) then NA
      else (case read_num C (write_cell C c) of None \<Rightarrow> NA | Some n \<Rightarrow> Num n)) = c"
    if "c \<in> set cs" for c
    using na r [OF that] t [OF that]
    by (cases c) (simp_all add: write_cell_def reads_back_def is_text_def)
  have "list_all (\<lambda>f. is_na C f \<or> read_num C f \<noteq> None) (map (write_cell C) cs)"
    using ok by (simp add: list_all_iff)
  then have "read_column C (map (write_cell C) cs) =
      map (\<lambda>f. if is_na C f then NA
                else (case read_num C f of None \<Rightarrow> NA | Some n \<Rightarrow> Num n)) (map (write_cell C) cs)"
    by (simp only: read_column_def if_True)
  also have "\<dots> = map (\<lambda>c. c) cs"
    unfolding map_map comp_def by (rule map_cong [OF refl]) (rule same)
  finally show ?thesis by simp
qed

lemma read_column_texts:
  assumes na: "is_na C []" and rb: "list_all (reads_back C) cs"
    and nn: "list_all (\<lambda>c. \<not> is_number c) cs" and pt: "list_ex (plain_text C) cs"
  shows "read_column C (map (write_cell C) cs) = cs"
proof -
  from pt obtain c where c: "c \<in> set cs" and p: "plain_text C c"
    by (auto simp: list_ex_iff)
  from p obtain s where s: "c = Txt s" and rn: "read_num C s = None"
    by (cases c) (simp_all add: plain_text_def)
  have "reads_back C c"
    using rb c by (simp add: list_all_iff)
  then have "\<not> is_na C s"
    using s by (simp add: reads_back_def)
  then have "\<not> (is_na C (write_cell C c) \<or> read_num C (write_cell C c) \<noteq> None)"
    using s rn by (simp add: write_cell_def)
  then have "\<not> list_all (\<lambda>f. is_na C f \<or> read_num C f \<noteq> None) (map (write_cell C) cs)"
    using c by (auto simp: list_all_iff)
  then have "read_column C (map (write_cell C) cs) =
      map (\<lambda>f. if is_na C f then NA else Txt f) (map (write_cell C) cs)"
    by (simp only: read_column_def if_False)
  moreover have "(if is_na C (write_cell C d) then NA else Txt (write_cell C d)) = d"
    if "d \<in> set cs" for d
  proof -
    have "reads_back C d" and "\<not> is_number d"
      using that rb nn by (simp_all add: list_all_iff)
    then show ?thesis
      using na by (cases d) (simp_all add: write_cell_def reads_back_def is_number_def)
  qed
  ultimately have "read_column C (map (write_cell C) cs) = map (\<lambda>c. c) cs"
    unfolding map_map comp_def by (simp cong: map_cong)
  then show ?thesis by simp
qed

lemma read_column_kept:
  "is_na C [] \<Longrightarrow> column_kept C cs \<Longrightarrow> read_column C (map (write_cell C) cs) = cs"
  unfolding column_kept_def
  using read_column_numbers [of C cs] read_column_texts [of C cs] by blast

lemma fields_of_column:
  assumes rect: "list_all (\<lambda>r. length r = n) rws" and j: "j < n"
  shows "map (\<lambda>r. field_at r j) (map (map w) rws) = map w (map (\<lambda>r. r ! j) rws)"
proof -
  have "field_at (map w r) j = w (r ! j)" if "r \<in> set rws" for r
  proof -
    have "length r = n" using that rect by (simp add: list_all_iff)
    then show ?thesis using j by (simp add: field_at_def)
  qed
  then show ?thesis by (simp add: comp_def cong: map_cong)
qed

lemma rows_of_columns:
  assumes rect: "list_all (\<lambda>r. length r = n) rws"
  shows "map (\<lambda>i. map (\<lambda>c. c ! i) (map (\<lambda>j. map (\<lambda>r. r ! j) rws) [0..<n])) [0..<length rws] = rws"
proof (rule nth_equalityI)
  show "length (map (\<lambda>i. map (\<lambda>c. c ! i) (map (\<lambda>j. map (\<lambda>r. r ! j) rws) [0..<n])) [0..<length rws]) = length rws"
    by simp
next
  fix i
  assume "i < length (map (\<lambda>i. map (\<lambda>c. c ! i) (map (\<lambda>j. map (\<lambda>r. r ! j) rws) [0..<n])) [0..<length rws])"
  then have i: "i < length rws" by simp
  then have len: "length (rws ! i) = n"
    using rect by (simp add: list_all_length)
  have "map (\<lambda>c. c ! i) (map (\<lambda>j. map (\<lambda>r. r ! j) rws) [0..<n]) = map (\<lambda>j. rws ! i ! j) [0..<n]"
    using i by (simp add: comp_def)
  also have "\<dots> = rws ! i"
    using len map_nth [of "rws ! i"] by simp
  finally show "map (\<lambda>i. map (\<lambda>c. c ! i) (map (\<lambda>j. map (\<lambda>r. r ! j) rws) [0..<n])) [0..<length rws] ! i = rws ! i"
    using i by simp
qed

lemma pd_read_csv_to_csv:
  assumes na: "is_na C []"
    and rect: "list_all (\<lambda>r. length r = length (header v)) (body v)"
    and kept: "list_all (\<lambda>j. column_kept C (column v j)) [0..<length (header v)]"
  shows "pd_read_csv C (to_csv C v) = Inr v"
proof -
  let ?n = "length (header v)"
  let ?rs = "map (map (write_cell C)) (body v)"
  have short: "\<not> (\<exists>r \<in> set ?rs. ?n < length r)"
    using rect by (auto simp: list_all_iff)
  have col: "read_column C (map (\<lambda>r. field_at r j) ?rs) = map (\<lambda>r. r ! j) (body v)"
    if "j \<in> set [0..<?n]" for j
  proof -
    from that have j: "j < ?n" by simp
    have k: "column_kept C (column v j)"
      using kept that by (simp only: list_all_iff)
    have f: "map (\<lambda>r. field_at r j) ?rs = map (write_cell C) (column v j)"
      unfolding column_def by (rule fields_of_column [OF rect j])
    have "read_column C (map (write_cell C) (column v j)) = column v j"
      by (rule read_column_kept [OF na k])
    then show ?thesis
      unfolding f column_def .
  qed
  have cols: "map (\<lambda>j. read_column C (map (\<lambda>r. field_at r j) ?rs)) [0..<?n] =
      map (\<lambda>j. map (\<lambda>r. r ! j) (body v)) [0..<?n]"
    by (rule map_cong [OF refl]) (rule col)
  have "pd_read_csv C (to_csv C v) =
      Inr \<lparr>header = header v,
           body = map (\<lambda>i. map (\<lambda>c. c ! i) (map (\<lambda>j. map (\<lambda>r. r ! j) (body v)) [0..<?n]))
                    [0..<length (body v)]\<rparr>"
    using short by (simp only: pd_read_csv_def to_csv_def list.case if_False Let_def cols length_map)
  also have "\<dots> = Inr \<lparr>header = header v, body = body v\<rparr>"
    by (simp only: rows_of_columns [OF rect])
  finally show ?thesis by simp
qed

text \<open>
  C9, amended. Exporting a view and loading the export again gives back the view, the same
  rows in the same order with the same values, when the column names carry no whitespace
  at their ends, every row has a cell for every column, the empty field is read as
  missing, and every column is kept: each cell is read back as itself when read alone (a
  number's text reads as that number, and neither it nor any text of the view is a marker
  of a missing value), and the column is free of texts, or free of numbers with at least
  one text that does not read as a number.
\<close>

theorem export_reload:
  assumes "is_na C []"
    and "list_all (\<lambda>c. strip U c = c) (header v)"
    and "list_all (\<lambda>r. length r = length (header v)) (body v)"
    and "list_all (\<lambda>j. column_kept C (column v j)) [0..<length (header v)]"
  shows "read_csv U C (export C v) = Inr v"
proof -
  have "map (strip U) (header v) = header v"
    using assms(2) by (simp add: list_all_iff map_idI)
  then show ?thesis
    using pd_read_csv_to_csv [OF assms(1,3,4)] by (simp add: read_csv_def export_def)
qed

text \<open>
  C9, as the specification has it, fails: the type of a column is inferred afresh from
  the cells that the view has kept. In a table whose languages column holds \<open>Anglais\<close> and
  \<open>2\<close> both cells are texts; the view for the ages 25 to 35 keeps the second row only, its
  export has the field \<open>2\<close> in that column, and the loader reads it back as the number 2,
  which is not the text \<open>2\<close>.
\<close>

theorem reload_retypes_text:
  "dff language_rows (no_filter (25, 35)) =
     [blank\<lparr>ID := Some 2, Age := Some 30, Q5_Langues := Some (lit ''2'')\<rparr>] \<and>
   body (frame_of (dff language_rows (no_filter (25, 35)))) ! 0 ! 8 = Txt (lit ''2'') \<and>
   map_sum id (\<lambda>t. body t ! 0 ! 8)
     (read_csv ascii int_codec (export int_codec (frame_of (dff language_rows (no_filter (25, 35)))))) =
     Inr (Num 2) \<and>
   read_csv ascii int_codec (export int_codec (frame_of (dff language_rows (no_filter (25, 35))))) \<noteq>
     Inr (frame_of (dff language_rows (no_filter (25, 35))))"
  by code_simp

theorem export_reload_witness:
  "read_csv ascii int_codec (export int_codec (frame_of (dff three_rows (no_filter (23, 30))))) =
     Inr (frame_of (dff three_rows (no_filter (23, 30))))"
proof -
  let ?v = "frame_of (dff three_rows (no_filter (23, 30)))"
  have h1: "is_na int_codec []"
    by code_simp
  have h2: "list_all (\<lambda>c. strip ascii c = c) (header ?v)"
    by code_simp
  have h3: "list_all (\<lambda>r. length r = length (header ?v)) (body ?v)"
    by code_simp
  have h4: "list_all (\<lambda>j. column_kept int_codec (column ?v j)) [0..<length (header ?v)]"
    by code_simp
  show ?thesis
    by (rule export_reload [OF h1 h2 h3 h4])
qed

end
